theory Spec2Isabelle
  imports Complex_Main "HOL-Library.Multiset" "HOL-Library.Sublist"
begin

section \<open>Data model (src/src/lib/types/index.ts, src/src/lib/types/system.ts)\<close>

text \<open>
  JavaScript numbers are modelled as exact real numbers: every arithmetic
  operation of the source is the corresponding operation on \<open>real\<close>, without
  IEEE-754 rounding, infinities or NaN. The anonymous object type
  \<open>{ home: number; draw: number; away: number }\<close>, used for odds, probabilities,
  public betting percentages and expert tips alike, is the record \<open>Triple\<close>.
\<close>

record Triple =
  home :: real
  draw :: real
  away :: real

text \<open>
  \<open>RiskProfile\<close> is the union \<open>'safe' | 'balanced' | 'risky'\<close> in TypeScript, which
  is erased at run time: the functions receive whatever string the caller sends.
\<close>

type_synonym RiskProfile = string

text \<open>
  \<open>Outcome\<close> is \<open>'1' | 'X' | '2'\<close> and \<open>SystemOutcome\<close> is
  \<open>'1' | 'X' | '2' | '1X' | '12' | 'X2' | '1X2'\<close>.
\<close>

datatype Outcome = O1 | OX | O2

datatype SystemOutcome = S1 | SX | S2 | S1X | S12 | SX2 | S1X2

text \<open>
  A field \<open>f\<close> of an interface is the selector \<open>p_f\<close>, with a prefix per
  interface, so that the local names of the source stay free for the functions
  below. Fields that no modelled function reads (\<open>kickoff\<close>, \<open>oddsAnalysis\<close>,
  \<open>betMetrics\<close>, \<open>matchStatus\<close>, \<open>filters\<close>) and the fields that hold the clock or
  a random identifier (\<open>id\<close> of a system, \<open>createdAt\<close>) are left out. An optional or
  null field is an \<open>option\<close>, and so is a slot of the array \<open>matches\<close> of a
  generated system, which \<open>selectSystemOutcomes\<close> creates with holes and fills by
  index. The counts of a configuration are integers.
\<close>

record SvenskaSpelData =
  ssd_svenskaFolket :: "Triple option"
  ssd_expertTips :: "Triple option"
  ssd_league :: "string option"

record MatchWithOdds =
  m_matchId :: string
  m_home :: string
  m_away :: string
  m_odds :: Triple
  m_probabilities :: Triple
  m_svenskaSpelData :: "SvenskaSpelData option"

record SystemMatch = MatchWithOdds +
  m_systemOutcome :: SystemOutcome

record Distribution =
  halves :: int
  fulls :: int
  singles :: int

record SystemConfiguration =
  c_totalRows :: int
  c_cost :: real
  c_costPerRow :: real
  c_distribution :: Distribution
  c_description :: string

record GeneratedRow =
  r_id :: string
  r_outcomes :: "Outcome list"
  r_expectedCorrect :: real
  r_expectedPayout :: real
  r_riskProfile :: RiskProfile

record GeneratedSystem =
  s_matches :: "SystemMatch option list"
  s_configuration :: SystemConfiguration
  s_allRows :: "GeneratedRow list"
  s_expectedCorrect :: real
  s_expectedPayout :: real
  s_riskProfile :: RiskProfile

text \<open>
  \<open>MatchIntelligence\<close> of the football intelligence module, with its objects
  \<open>scores\<close> and \<open>recommendations\<close>; \<open>StrategicMatch\<close> is the element type of the
  array \<open>strategicMatches\<close> of \<open>selectSystemOutcomes\<close>, an analysis spread into an
  object with \<open>index\<close> and \<open>strategicValue\<close>.
\<close>

record Scores =
  sc_valueScore :: real
  sc_publicSentiment :: real
  sc_expertConsensus :: real
  sc_homeAdvantage :: real
  sc_uncertaintyScore :: real
  sc_contrarian :: real

record Recommendations =
  rec_safePick :: Outcome
  rec_valuePick :: Outcome
  rec_contrarian :: Outcome
  rec_confidence :: real

record MatchIntelligence =
  mi_match :: MatchWithOdds
  mi_scores :: Scores
  mi_recommendations :: Recommendations

record StrategicMatch = MatchIntelligence +
  sm_index :: nat
  sm_strategicValue :: real

text \<open>
  The run-time errors of the JavaScript engine that the modelled functions can
  raise; the source defines no error class of its own and has no \<open>throw\<close>.
\<close>

datatype error = TypeError

text \<open>
  The object \<open>payouts\<close> has the four \<open>exactly\<close> keys; the tallies and the
  probabilities of a simulation have the \<open>atLeast\<close> keys as well.
\<close>

record Exactly =
  exactly10 :: real
  exactly11 :: real
  exactly12 :: real
  exactly13 :: real

record Buckets = Exactly +
  atLeast10 :: real
  atLeast11 :: real
  atLeast12 :: real
  atLeast13 :: real

record SimulationResult =
  sr_rowId :: string
  sr_correctResults :: Buckets
  sr_averageCorrect :: real
  sr_expectedPayout :: real
  sr_iterations :: nat

section \<open>The random source\<close>

text \<open>
  \<open>Math.random()\<close> is the next element of a stream of reals that the functions
  pass along; its contract, a value in \<open>[0, 1)\<close>, is the predicate \<open>valid_rng\<close>.
\<close>

type_synonym rng = "nat \<Rightarrow> real"

definition Math_random :: "rng \<Rightarrow> real \<times> rng" where
  "Math_random g = (g 0, (\<lambda>n. g (Suc n)))"

definition valid_rng :: "rng \<Rightarrow> bool" where
  "valid_rng g = (\<forall>n. 0 \<le> g n \<and> g n < 1)"

section \<open>Odds and probabilities (src/src/lib/utils/odds.ts, first module)\<close>

definition oddsToNormalizedProbabilities :: "Triple \<Rightarrow> Triple" where
  "oddsToNormalizedProbabilities odds =
     (let impliedProbs = \<lparr> home = 1 / home odds, draw = 1 / draw odds, away = 1 / away odds \<rparr>;
          total = home impliedProbs + draw impliedProbs + away impliedProbs
      in \<lparr> home = home impliedProbs / total,
           draw = draw impliedProbs / total,
           away = away impliedProbs / total \<rparr>)"

definition adjustProbabilityForRisk :: "real \<Rightarrow> real \<Rightarrow> real" where
  "adjustProbabilityForRisk prob riskFactor =
     (let bias = 1 + (riskFactor * (0.5 - prob))
      in max 0 (min 1 (prob * bias)))"

definition getRiskFactor :: "RiskProfile \<Rightarrow> real" where
  "getRiskFactor profile =
     (if profile = ''safe'' then - 0.7
      else if profile = ''balanced'' then 0
      else if profile = ''risky'' then 0.7
      else 0)"

definition adjustMatchProbabilities :: "Triple \<Rightarrow> RiskProfile \<Rightarrow> Triple" where
  "adjustMatchProbabilities probabilities riskProfile =
     (let riskFactor = getRiskFactor riskProfile;
          adjusted = \<lparr> home = adjustProbabilityForRisk (home probabilities) riskFactor,
                       draw = adjustProbabilityForRisk (draw probabilities) riskFactor,
                       away = adjustProbabilityForRisk (away probabilities) riskFactor \<rparr>;
          total = home adjusted + draw adjusted + away adjusted
      in \<lparr> home = home adjusted / total,
           draw = draw adjusted / total,
           away = away adjusted / total \<rparr>)"

definition calculateExpectedValues :: "Triple \<Rightarrow> Triple \<Rightarrow> Triple" where
  "calculateExpectedValues odds probabilities =
     \<lparr> home = (home odds * home probabilities) - 1,
       draw = (draw odds * draw probabilities) - 1,
       away = (away odds * away probabilities) - 1 \<rparr>"

definition selectWeightedRandomOutcome :: "Triple \<Rightarrow> rng \<Rightarrow> Outcome \<times> rng" where
  "selectWeightedRandomOutcome probabilities g =
     (let (random, g1) = Math_random g
      in (if random < home probabilities then O1
          else if random < home probabilities + draw probabilities then OX
          else O2, g1))"

section \<open>Kelly criterion (src/src/lib/utils/kellycriterion.ts)\<close>

text \<open>
  \<open>KellyCriterion.calculateOptimalStake\<close>; the default value 1000 of the
  parameter \<open>bankroll\<close> is the caller's \<open>None\<close>.
\<close>

definition calculateOptimalStake :: "real \<Rightarrow> real \<Rightarrow> real option \<Rightarrow> real" where
  "calculateOptimalStake trueProbability bookmakerOdds bankrollArg =
     (let bankroll = (case bankrollArg of None \<Rightarrow> 1000 | Some b \<Rightarrow> b);
          edge = (trueProbability * bookmakerOdds) - 1
      in if edge \<le> 0 then 0
         else (let kellyFraction = edge / (bookmakerOdds - 1)
               in min (kellyFraction * bankroll) (0.25 * bankroll)))"

definition calculateValue :: "real \<Rightarrow> real \<Rightarrow> real" where
  "calculateValue trueProbability bookmakerOdds = (trueProbability * bookmakerOdds) - 1"

section \<open>Monte Carlo simulation (src/src/lib/utils/odds.ts, second module)\<close>

text \<open>
  The file holds two modules; the second one, the simulation, imports
  \<open>selectWeightedRandomOutcome\<close> from the first.

  \<open>simulateMatchday\<close>: the loop over \<open>i < matches.length\<close>; reading
  \<open>predictions[i]\<close> beyond the end of the row gives \<open>undefined\<close>, which equals no
  outcome.
\<close>

definition simulateMatchday :: "Outcome list \<Rightarrow> MatchWithOdds list \<Rightarrow> rng \<Rightarrow> nat \<times> rng" where
  "simulateMatchday predictions matches g =
     fold (\<lambda>i (correctCount, g0).
             let match = matches ! i;
                 prediction = (if i < length predictions then Some (predictions ! i) else None);
                 (actualOutcome, g1) = selectWeightedRandomOutcome (m_probabilities match) g0
             in (if prediction = Some actualOutcome then correctCount + 1 else correctCount, g1))
          [0..<length matches] (0, g)"

definition payouts :: Exactly where
  "payouts = \<lparr> exactly10 = 50, exactly11 = 500, exactly12 = 5000, exactly13 = 50000 \<rparr>"

definition calculateExpectedPayout :: "Buckets \<Rightarrow> real" where
  "calculateExpectedPayout probabilities =
     exactly10 probabilities * exactly10 payouts +
     exactly11 probabilities * exactly11 payouts +
     exactly12 probabilities * exactly12 payouts +
     exactly13 probabilities * exactly13 payouts"

text \<open>
  One trial of \<open>simulateRow\<close>: the body of its loop, on the tallies, the running
  total and the random source.
\<close>

definition simulateRow_trial ::
  "Outcome list \<Rightarrow> MatchWithOdds list \<Rightarrow> Buckets \<times> real \<times> rng \<Rightarrow> Buckets \<times> real \<times> rng" where
  "simulateRow_trial predictions matches st =
     (case st of (results, totalCorrect, g) \<Rightarrow>
        let (correctCount, g1) = simulateMatchday predictions matches g;
            totalCorrect1 = totalCorrect + real correctCount;
            r0 = (if correctCount = 10 then results\<lparr> exactly10 := exactly10 results + 1 \<rparr>
                  else if correctCount = 11 then results\<lparr> exactly11 := exactly11 results + 1 \<rparr>
                  else if correctCount = 12 then results\<lparr> exactly12 := exactly12 results + 1 \<rparr>
                  else if correctCount = 13 then results\<lparr> exactly13 := exactly13 results + 1 \<rparr>
                  else results);
            r1 = (if correctCount \<ge> 10 then r0\<lparr> atLeast10 := atLeast10 r0 + 1 \<rparr> else r0);
            r2 = (if correctCount \<ge> 11 then r1\<lparr> atLeast11 := atLeast11 r1 + 1 \<rparr> else r1);
            r3 = (if correctCount \<ge> 12 then r2\<lparr> atLeast12 := atLeast12 r2 + 1 \<rparr> else r2);
            r4 = (if correctCount \<ge> 13 then r3\<lparr> atLeast13 := atLeast13 r3 + 1 \<rparr> else r3)
        in (r4, totalCorrect1, g1))"

primrec simulateRow_loop ::
  "nat \<Rightarrow> Outcome list \<Rightarrow> MatchWithOdds list \<Rightarrow> Buckets \<times> real \<times> rng \<Rightarrow> Buckets \<times> real \<times> rng" where
  "simulateRow_loop 0 predictions matches st = st"
| "simulateRow_loop (Suc n) predictions matches st =
     simulateRow_loop n predictions matches (simulateRow_trial predictions matches st)"

text \<open>
  \<open>simulateRow\<close>; the default 100000 of the parameter \<open>iterations\<close> is the
  caller's \<open>None\<close>. The iteration count is a natural number.
\<close>

definition simulateRow ::
  "GeneratedRow \<Rightarrow> MatchWithOdds list \<Rightarrow> nat option \<Rightarrow> rng \<Rightarrow> SimulationResult \<times> rng" where
  "simulateRow row matches iterationsArg g =
     (let iterations = (case iterationsArg of None \<Rightarrow> 100000 | Some n \<Rightarrow> n);
          results0 = \<lparr> exactly10 = 0, exactly11 = 0, exactly12 = 0, exactly13 = 0,
                       atLeast10 = 0, atLeast11 = 0, atLeast12 = 0, atLeast13 = 0 \<rparr>;
          (results, totalCorrect, g1) =
             simulateRow_loop iterations (r_outcomes row) matches (results0, 0, g);
          probabilities = \<lparr> exactly10 = exactly10 results / real iterations,
                            exactly11 = exactly11 results / real iterations,
                            exactly12 = exactly12 results / real iterations,
                            exactly13 = exactly13 results / real iterations,
                            atLeast10 = atLeast10 results / real iterations,
                            atLeast11 = atLeast11 results / real iterations,
                            atLeast12 = atLeast12 results / real iterations,
                            atLeast13 = atLeast13 results / real iterations \<rparr>;
          averageCorrect = totalCorrect / real iterations;
          expectedPayout = calculateExpectedPayout probabilities
      in (\<lparr> sr_rowId = r_id row,
            sr_correctResults = probabilities,
            sr_averageCorrect = averageCorrect,
            sr_expectedPayout = expectedPayout,
            sr_iterations = iterations \<rparr>, g1))"

text \<open>
  The correct counts of the successive trials of one run, in order: what each
  call of \<open>simulateMatchday\<close> in the loop of \<open>simulateRow\<close> returns.
\<close>

primrec trialCounts :: "nat \<Rightarrow> Outcome list \<Rightarrow> MatchWithOdds list \<Rightarrow> rng \<Rightarrow> nat list" where
  "trialCounts 0 predictions matches g = []"
| "trialCounts (Suc n) predictions matches g =
     (case simulateMatchday predictions matches g of
        (correctCount, g1) \<Rightarrow> correctCount # trialCounts n predictions matches g1)"

text \<open>
  The bucket \<open>exactly<k>\<close> of an object, for \<open>k\<close> from 10 to 13.
\<close>

definition exactly :: "'a Exactly_scheme \<Rightarrow> nat \<Rightarrow> real" where
  "exactly b k = (if k = 10 then exactly10 b else if k = 11 then exactly11 b
                  else if k = 12 then exactly12 b else exactly13 b)"

section \<open>Football intelligence (src/unnamed/part_004)\<close>

text \<open>
  Strings are lists of bytes (the UTF-8 encoding of the source's strings), and
  \<open>s.includes(t)\<close> is the test that \<open>t\<close> occurs in \<open>s\<close> as a contiguous
  block.
\<close>

definition str_includes :: "string \<Rightarrow> string \<Rightarrow> bool" where
  "str_includes s searchString = sublist searchString s"

definition calculateValueScore :: "Triple \<Rightarrow> Triple \<Rightarrow> real" where
  "calculateValueScore odds probabilities =
     (let homeEV = (home odds * home probabilities) - 1;
          drawEV = (draw odds * draw probabilities) - 1;
          awayEV = (away odds * away probabilities) - 1;
          bestEV = max homeEV (max drawEV awayEV)
      in max 0 (min 1 ((bestEV + 0.2) / 0.4)))"

text \<open>
  \<open>calculatePublicSentiment\<close>. The last quotient is \<open>NaN\<close> in JavaScript when
  the home and away percentages are both 0 and the draw percentage is not; the
  score is stored in \<open>scores.publicSentiment\<close> and read by no decision below.
\<close>

definition calculatePublicSentiment :: "Triple option \<Rightarrow> real" where
  "calculatePublicSentiment svenskaFolket =
     (case svenskaFolket of
        None \<Rightarrow> 0.5
      | Some sf \<Rightarrow>
          (let total = home sf + draw sf + away sf
           in if total = 0 then 0.5
              else (let homeWeight = home sf / total;
                        awayWeight = away sf / total
                    in awayWeight / (homeWeight + awayWeight))))"

definition calculateExpertConsensus :: "Triple option \<Rightarrow> real" where
  "calculateExpertConsensus expertTips =
     (case expertTips of
        None \<Rightarrow> 0.5
      | Some tips \<Rightarrow>
          (let total = home tips + draw tips + away tips
           in if total = 0 then 0
              else (let maxTips = max (home tips) (max (draw tips) (away tips))
                    in maxTips / total)))"

definition bigTeams :: "string list" where
  "bigTeams = [''Manchester City'', ''Arsenal'', ''Liverpool'', ''Real Madrid'', ''Barcelona'',
               ''Bayern M'' @ [CHR 0xC3, CHR 0x83, CHR 0xC2, CHR 0xBC] @ ''nchen'']"

definition calculateHomeAdvantage :: "string \<Rightarrow> string \<Rightarrow> string option \<Rightarrow> real" where
  "calculateHomeAdvantage homeTeam awayTeam league =
     (let leagueIncludes = (\<lambda>name. case league of None \<Rightarrow> False | Some l \<Rightarrow> str_includes l name);
          a0 = 0.6;
          a1 = (if leagueIncludes ''Premier League'' then 0.65 else a0);
          a2 = (if leagueIncludes ''La Liga'' then 0.68 else a1);
          a3 = (if leagueIncludes ''Serie A'' then 0.62 else a2);
          a4 = (if leagueIncludes ''Bundesliga'' then 0.63 else a3);
          a5 = (if leagueIncludes ''Allsvenskan'' then 0.67 else a4);
          advantage = (if list_ex (\<lambda>team. str_includes awayTeam team) bigTeams then a5 - 0.1 else a5)
      in max 0.4 (min 0.8 advantage))"

definition calculateUncertainty :: "Triple \<Rightarrow> real" where
  "calculateUncertainty probabilities =
     (let probs = [home probabilities, draw probabilities, away probabilities];
          entropy = - fold (\<lambda>p sum. if p > 0 then sum + p * log 2 p else sum) probs 0
      in entropy / log 2 3)"

definition calculateContrarianScore :: "Triple \<Rightarrow> SvenskaSpelData option \<Rightarrow> real" where
  "calculateContrarianScore odds svenskaSpelData =
     (case Option.bind svenskaSpelData ssd_svenskaFolket of
        None \<Rightarrow> 0
      | Some svenskaFolket \<Rightarrow>
          (let total = home svenskaFolket + draw svenskaFolket + away svenskaFolket
           in if total = 0 then 0
              else (let oddsProbs = \<lparr> home = 1 / home odds, draw = 1 / draw odds, away = 1 / away odds \<rparr>;
                        oddsTotal = home oddsProbs + draw oddsProbs + away oddsProbs;
                        normalizedOddsProbs = \<lparr> home = home oddsProbs / oddsTotal,
                                                draw = draw oddsProbs / oddsTotal,
                                                away = away oddsProbs / oddsTotal \<rparr>;
                        publicProbs = \<lparr> home = home svenskaFolket / total,
                                        draw = draw svenskaFolket / total,
                                        away = away svenskaFolket / total \<rparr>;
                        disagreement = \<bar>home normalizedOddsProbs - home publicProbs\<bar> +
                                       \<bar>draw normalizedOddsProbs - draw publicProbs\<bar> +
                                       \<bar>away normalizedOddsProbs - away publicProbs\<bar>
                    in min 1 (disagreement / 0.6))))"

definition getSafePick :: "Triple \<Rightarrow> real \<Rightarrow> Outcome" where
  "getSafePick probabilities expertConsensus =
     (let weight = 0.7 + (expertConsensus * 0.3);
          weightedProbs = \<lparr> home = home probabilities * weight,
                            draw = draw probabilities * weight,
                            away = away probabilities * weight \<rparr>
      in if home weightedProbs \<ge> draw weightedProbs \<and> home weightedProbs \<ge> away weightedProbs then O1
         else if draw weightedProbs \<ge> away weightedProbs then OX
         else O2)"

definition getValuePick :: "Triple \<Rightarrow> Triple \<Rightarrow> Outcome" where
  "getValuePick odds probabilities =
     (let homeEV = (home odds * home probabilities) - 1;
          drawEV = (draw odds * draw probabilities) - 1;
          awayEV = (away odds * away probabilities) - 1
      in if homeEV \<ge> drawEV \<and> homeEV \<ge> awayEV then O1
         else if drawEV \<ge> awayEV then OX
         else O2)"

text \<open>
  \<open>getContrarianPick\<close>; \<open>!contrarianScore\<close> holds of the number 0.
\<close>

definition getContrarianPick :: "Triple \<Rightarrow> Triple option \<Rightarrow> real \<Rightarrow> Outcome" where
  "getContrarianPick odds svenskaFolket contrarianScore =
     (case svenskaFolket of
        None \<Rightarrow> getValuePick odds \<lparr> home = 1 / home odds, draw = 1 / draw odds, away = 1 / away odds \<rparr>
      | Some sf \<Rightarrow>
          if contrarianScore = 0 \<or> contrarianScore < 0.3
          then getValuePick odds \<lparr> home = 1 / home odds, draw = 1 / draw odds, away = 1 / away odds \<rparr>
          else (let total = home sf + draw sf + away sf
                in if total = 0 then O1
                   else (let publicPercentages = \<lparr> home = home sf / total,
                                                     draw = draw sf / total,
                                                     away = away sf / total \<rparr>;
                             minPublic = min (home publicPercentages)
                                           (min (draw publicPercentages) (away publicPercentages))
                         in if home publicPercentages = minPublic then O1
                            else if draw publicPercentages = minPublic then OX
                            else O2)))"

definition calculateOverallConfidence :: "Scores \<Rightarrow> real" where
  "calculateOverallConfidence scores =
     (let w_valueScore = 0.25;
          w_expertConsensus = 0.3;
          w_homeAdvantage = 0.15;
          w_uncertaintyScore = - 0.2;
          w_contrarian = 0.1;
          confidence =
            sc_valueScore scores * w_valueScore +
            sc_expertConsensus scores * w_expertConsensus +
            sc_homeAdvantage scores * w_homeAdvantage +
            (1 - sc_uncertaintyScore scores) * \<bar>w_uncertaintyScore\<bar> +
            sc_contrarian scores * w_contrarian
      in max 0 (min 1 confidence))"

definition generateRecommendations :: "MatchWithOdds \<Rightarrow> Scores \<Rightarrow> Recommendations" where
  "generateRecommendations match scores =
     (let odds = m_odds match;
          probabilities = m_probabilities match;
          safePick = getSafePick probabilities (sc_expertConsensus scores);
          valuePick = getValuePick odds probabilities;
          contrarian = getContrarianPick odds
                         (Option.bind (m_svenskaSpelData match) ssd_svenskaFolket)
                         (sc_contrarian scores);
          confidence = calculateOverallConfidence scores
      in \<lparr> rec_safePick = safePick, rec_valuePick = valuePick,
           rec_contrarian = contrarian, rec_confidence = confidence \<rparr>)"

definition analyzeMatch :: "MatchWithOdds \<Rightarrow> MatchIntelligence" where
  "analyzeMatch match =
     (let odds = m_odds match;
          probabilities = m_probabilities match;
          svenskaSpelData = m_svenskaSpelData match;
          valueScore = calculateValueScore odds probabilities;
          publicSentiment = calculatePublicSentiment (Option.bind svenskaSpelData ssd_svenskaFolket);
          expertConsensus = calculateExpertConsensus (Option.bind svenskaSpelData ssd_expertTips);
          homeAdvantage = calculateHomeAdvantage (m_home match) (m_away match)
                            (Option.bind svenskaSpelData ssd_league);
          uncertaintyScore = calculateUncertainty probabilities;
          contrarian = calculateContrarianScore odds svenskaSpelData;
          scores = \<lparr> sc_valueScore = valueScore, sc_publicSentiment = publicSentiment,
                     sc_expertConsensus = expertConsensus, sc_homeAdvantage = homeAdvantage,
                     sc_uncertaintyScore = uncertaintyScore, sc_contrarian = contrarian \<rparr>;
          recommendations = generateRecommendations match scores
      in \<lparr> mi_match = match, mi_scores = scores, mi_recommendations = recommendations \<rparr>)"

section \<open>System generator (src/src/lib/utils/systemGenerator.ts)\<close>

text \<open>
  An \<open>Outcome\<close> is a \<open>SystemOutcome\<close> in TypeScript; here the inclusion is a
  function.
\<close>

definition ofOutcome :: "Outcome \<Rightarrow> SystemOutcome" where
  "ofOutcome outcome = (case outcome of O1 \<Rightarrow> S1 | OX \<Rightarrow> SX | O2 \<Rightarrow> S2)"

text \<open>
  \<open>Math.floor(Math.random() * n)\<close>, and the destructuring swap
  \<open>[a[i], a[j]] = [a[j], a[i]]\<close> for two indices inside the array (which the
  contract of \<open>Math.random\<close> gives wherever the source swaps in a non-empty array).
\<close>

definition randomIndex :: "nat \<Rightarrow> rng \<Rightarrow> nat \<times> rng" where
  "randomIndex n g = (let (r, g1) = Math_random g in (nat \<lfloor>r * real n\<rfloor>, g1))"

definition swapAt :: "'a list \<Rightarrow> nat \<Rightarrow> nat \<Rightarrow> 'a list" where
  "swapAt xs idx1 idx2 = xs[idx1 := xs ! idx2, idx2 := xs ! idx1]"

definition selectIntelligentHalf ::
  "'a MatchIntelligence_scheme \<Rightarrow> RiskProfile \<Rightarrow> rng \<Rightarrow> SystemOutcome \<times> rng" where
  "selectIntelligentHalf analysis riskProfile g =
     (let scores = mi_scores analysis;
          recommendations = mi_recommendations analysis;
          probabilities = m_probabilities (mi_match analysis)
      in if riskProfile = ''safe'' then
           (let safePick = rec_safePick recommendations
            in (if safePick = O1 then (if draw probabilities > away probabilities then S1X else S12)
                else if safePick = OX then (if home probabilities > away probabilities then S1X else SX2)
                else (if home probabilities > draw probabilities then S12 else SX2), g))
         else if riskProfile = ''risky'' then
           (let (r, g1) = Math_random g;
                useContrarian = r < (sc_contrarian scores * 0.8 + 0.2)
            in if useContrarian then
                 (let contrarianPick = rec_contrarian recommendations;
                      (randomFactor, g2) = Math_random g1
                  in (if contrarianPick = O1 then
                        (if randomFactor < 0.33 then S1X
                         else if randomFactor < 0.66 then S12
                         else (if draw probabilities > away probabilities then S1X else S12))
                      else if contrarianPick = OX then
                        (if randomFactor < 0.33 then S1X
                         else if randomFactor < 0.66 then SX2
                         else (if home probabilities > away probabilities then S1X else SX2))
                      else
                        (if randomFactor < 0.33 then S12
                         else if randomFactor < 0.66 then SX2
                         else (if home probabilities > draw probabilities then S12 else SX2)), g2))
               else
                 (let valuePick = rec_valuePick recommendations;
                      (randomChoice, g2) = Math_random g1
                  in (if valuePick = O1 then
                        (if randomChoice < 0.6
                         then (if draw probabilities > away probabilities then S1X else S12)
                         else (if randomChoice < 0.8 then S1X else S12))
                      else if valuePick = OX then
                        (if randomChoice < 0.6
                         then (if home probabilities > away probabilities then S1X else SX2)
                         else (if randomChoice < 0.8 then S1X else SX2))
                      else
                        (if randomChoice < 0.6
                         then (if home probabilities > draw probabilities then S12 else SX2)
                         else (if randomChoice < 0.8 then S12 else SX2)), g2)))
         else
           (let useSafe = rec_confidence recommendations > 0.7;
                basePick = (if useSafe then rec_safePick recommendations
                            else rec_valuePick recommendations)
            in (if basePick = O1 then (if draw probabilities > away probabilities then S1X else S12)
                else if basePick = OX then (if home probabilities > away probabilities then S1X else SX2)
                else (if home probabilities > draw probabilities then S12 else SX2), g)))"

text \<open>
  The weighted strategies of the risky branch of \<open>selectIntelligentSingle\<close>:
  objects \<open>{ pick, weight }\<close>, the Fisher-Yates shuffle of the array (the loop
  from \<open>i = length - 1\<close> down to 1) and the cumulative scan with its fallback.
\<close>

record Strategy =
  st_pick :: Outcome
  st_weight :: real

primrec shuffleStrategies :: "nat \<Rightarrow> Strategy list \<Rightarrow> rng \<Rightarrow> Strategy list \<times> rng" where
  "shuffleStrategies 0 strategies g = (strategies, g)"
| "shuffleStrategies (Suc k) strategies g =
     (let i = Suc k;
          (j, g1) = randomIndex (i + 1) g
      in shuffleStrategies k (swapAt strategies i j) g1)"

fun pickByWeight :: "Strategy list \<Rightarrow> real \<Rightarrow> real \<Rightarrow> Outcome \<Rightarrow> Outcome" where
  "pickByWeight [] random cumulativeWeight fallback = fallback"
| "pickByWeight (strategy # rest) random cumulativeWeight fallback =
     (let cumulativeWeight1 = cumulativeWeight + st_weight strategy
      in if random \<le> cumulativeWeight1 then st_pick strategy
         else pickByWeight rest random cumulativeWeight1 fallback)"

definition selectWeightedStrategy :: "'a MatchIntelligence_scheme \<Rightarrow> rng \<Rightarrow> Outcome \<times> rng" where
  "selectWeightedStrategy analysis g =
     (let recommendations = mi_recommendations analysis;
          scores = mi_scores analysis;
          (r0, g1) = Math_random g;
          chaosMultiplier = 0.5 + r0;
          strategies0 = [\<lparr> st_pick = rec_valuePick recommendations, st_weight = 0.4 * chaosMultiplier \<rparr>,
                         \<lparr> st_pick = rec_contrarian recommendations, st_weight = 0.35 * chaosMultiplier \<rparr>,
                         \<lparr> st_pick = rec_safePick recommendations, st_weight = 0.25 * chaosMultiplier \<rparr>];
          (strategies1, g2) =
             (if sc_contrarian scores > 0.6
              then (let (r1, g') = Math_random g1
                    in (strategies0[1 := (strategies0 ! 1)\<lparr> st_weight :=
                          st_weight (strategies0 ! 1) * (1 + r1 * 0.5) \<rparr>], g'))
              else (strategies0, g1));
          (r2, g3) = Math_random g2;
          (strategies, g4) =
             (if r2 < 0.3 then shuffleStrategies (length strategies1 - 1) strategies1 g3
              else (strategies1, g3));
          totalWeight = fold (\<lambda>s sum. sum + st_weight s) strategies 0;
          (r3, g5) = Math_random g4;
          random = r3 * totalWeight
      in (pickByWeight strategies random 0 (rec_valuePick recommendations), g5))"

text \<open>
  \<open>selectIntelligentSingle\<close>. \<open>[...new Set(allPicks)]\<close> is read only through
  \<open>includes\<close>, so it is the set of the picks.
\<close>

definition selectIntelligentSingle ::
  "'a MatchIntelligence_scheme \<Rightarrow> RiskProfile \<Rightarrow> rng \<Rightarrow> Outcome \<times> rng" where
  "selectIntelligentSingle analysis riskProfile g =
     (let recommendations = mi_recommendations analysis
      in if riskProfile = ''safe'' then (rec_safePick recommendations, g)
         else if riskProfile = ''risky'' then
           (let (randomFactor, g1) = Math_random g
            in if randomFactor < 0.25 then
                 (let outcomes = [O1, OX, O2];
                      (k, g2) = randomIndex (length outcomes) g1
                  in (outcomes ! k, g2))
               else
                 (let allPicks = [rec_safePick recommendations, rec_valuePick recommendations,
                                  rec_contrarian recommendations];
                      uniquePicks = remdups allPicks;
                      allOutcomes = [O1, OX, O2];
                      otherOutcomes = filter (\<lambda>outcome. outcome \<notin> set uniquePicks) allOutcomes
                  in if randomFactor < 0.5 \<and> length otherOutcomes > 0 then
                       (let (k, g2) = randomIndex (length otherOutcomes) g1
                        in (otherOutcomes ! k, g2))
                     else selectWeightedStrategy analysis g1))
         else
           (if rec_confidence recommendations > 0.65 then rec_safePick recommendations
            else rec_valuePick recommendations, g))"

text \<open>
  The perturbation of the ranking in \<open>selectSystemOutcomes\<close>. \<open>Array.prototype.sort\<close>
  is stable, and the comparator \<open>b.strategicValue - a.strategicValue\<close> orders by
  descending strategic value.

  In the balanced branch the three swaps run on \<open>middle = slice(4, 9)\<close>. When the
  ranking has at most four elements \<open>middle\<close> is empty, both indices are 0, the
  swap stores \<open>undefined\<close> at \<open>middle[0]\<close>, the splice puts it into
  \<open>strategicMatches\<close>, and the assignment loop raises a \<open>TypeError\<close> on reading
  \<open>analysis.match\<close> of it.
\<close>

fun addNoise :: "StrategicMatch list \<Rightarrow> rng \<Rightarrow> StrategicMatch list \<times> rng" where
  "addNoise [] g = ([], g)"
| "addNoise (match # rest) g =
     (let (r, g1) = Math_random g;
          noise = (r - 0.5) * 0.8;
          (rest1, g2) = addNoise rest g1
      in (match\<lparr> sm_strategicValue := sm_strategicValue match + noise \<rparr> # rest1, g2))"

primrec randomSwaps :: "nat \<Rightarrow> 'a list \<Rightarrow> rng \<Rightarrow> 'a list \<times> rng" where
  "randomSwaps 0 xs g = (xs, g)"
| "randomSwaps (Suc k) xs g =
     (let (idx1, g1) = randomIndex (length xs) g;
          (idx2, g2) = randomIndex (length xs) g1
      in randomSwaps k (swapAt xs idx1 idx2) g2)"

definition sortByStrategicValue :: "StrategicMatch list \<Rightarrow> StrategicMatch list" where
  "sortByStrategicValue strategicMatches = sort_key (\<lambda>a. - sm_strategicValue a) strategicMatches"

definition randomizeOrder ::
  "StrategicMatch list \<Rightarrow> RiskProfile \<Rightarrow> rng \<Rightarrow> error + (StrategicMatch list \<times> rng)" where
  "randomizeOrder strategicMatches riskProfile g =
     (if riskProfile = ''risky'' then
        (let (noisy, g1) = addNoise strategicMatches g;
             resorted = sortByStrategicValue noisy;
             (r, g2) = Math_random g1;
             numSwaps = nat \<lfloor>real (length resorted) * (0.5 + r * 0.5)\<rfloor>;
             (swapped, g3) = randomSwaps numSwaps resorted g2;
             (r1, g4) = Math_random g3
         in Inr (if r1 < 0.3 then rev swapped else swapped, g4))
      else if riskProfile = ''balanced'' then
        (let (r, g1) = Math_random g
         in if r < 0.7 then
              (let stable = take 4 strategicMatches;
                   middle = take 5 (drop 4 strategicMatches);
                   bottom = drop 9 strategicMatches
               in if middle = [] then Inl TypeError
                  else (let (middle1, g2) = randomSwaps 3 middle g1
                        in Inr (stable @ middle1 @ bottom, g2)))
            else Inr (strategicMatches, g1))
      else Inr (strategicMatches, g))"

text \<open>
  \<open>systemMatches\<close> is \<open>new Array(13)\<close>: thirteen holes. A write at an index
  inside the array fills the slot; a write beyond the end extends the array,
  with holes in between.
\<close>

definition array_set :: "'a option list \<Rightarrow> nat \<Rightarrow> 'a \<Rightarrow> 'a option list" where
  "array_set arr i v =
     (if i < length arr then arr[i := Some v]
      else arr @ replicate (i - length arr) None @ [Some v])"

definition withSystemOutcome :: "MatchWithOdds \<Rightarrow> SystemOutcome \<Rightarrow> SystemMatch" where
  "withSystemOutcome match systemOutcome =
     \<lparr> m_matchId = m_matchId match, m_home = m_home match, m_away = m_away match,
       m_odds = m_odds match, m_probabilities = m_probabilities match,
       m_svenskaSpelData = m_svenskaSpelData match, m_systemOutcome = systemOutcome \<rparr>"

text \<open>
  The assignment loop of \<open>selectSystemOutcomes\<close>, over the ranking in its final
  order, on the array \<open>systemMatches\<close>, the counters \<open>halvesAssigned\<close> and
  \<open>fullsAssigned\<close> and the random source; \<open>withSystemOutcome\<close> is the object
  \<open>{ ...match, systemOutcome }\<close>.
\<close>

fun assignOutcomes ::
  "StrategicMatch list \<Rightarrow> SystemConfiguration \<Rightarrow> RiskProfile \<Rightarrow>
   SystemMatch option list \<Rightarrow> nat \<Rightarrow> nat \<Rightarrow> rng \<Rightarrow> SystemMatch option list \<times> rng" where
  "assignOutcomes [] config riskProfile systemMatches halvesAssigned fullsAssigned g =
     (systemMatches, g)"
| "assignOutcomes (analysis # rest) config riskProfile systemMatches halvesAssigned fullsAssigned g =
     (let match = mi_match analysis
      in if int halvesAssigned < halves (c_distribution config) then
           (let (systemOutcome, g1) = selectIntelligentHalf analysis riskProfile g
            in assignOutcomes rest config riskProfile
                 (array_set systemMatches (sm_index analysis) (withSystemOutcome match systemOutcome))
                 (halvesAssigned + 1) fullsAssigned g1)
         else if int fullsAssigned < fulls (c_distribution config) then
           assignOutcomes rest config riskProfile
             (array_set systemMatches (sm_index analysis) (withSystemOutcome match S1X2))
             halvesAssigned (fullsAssigned + 1) g
         else
           (let (outcome, g1) = selectIntelligentSingle analysis riskProfile g
            in assignOutcomes rest config riskProfile
                 (array_set systemMatches (sm_index analysis)
                    (withSystemOutcome match (ofOutcome outcome)))
                 halvesAssigned fullsAssigned g1))"

text \<open>
  \<open>selectSystemOutcomes\<close>: the analyses, each spread into an object with its
  index in the slate and its strategic value (\<open>toStrategicMatch\<close>), the sort, the
  perturbation and the assignment loop. The console output is left out.
\<close>

definition toStrategicMatch :: "MatchIntelligence \<Rightarrow> nat \<Rightarrow> StrategicMatch" where
  "toStrategicMatch analysis index =
     \<lparr> mi_match = mi_match analysis, mi_scores = mi_scores analysis,
       mi_recommendations = mi_recommendations analysis,
       sm_index = index,
       sm_strategicValue = sc_uncertaintyScore (mi_scores analysis) * 0.6
                           + sc_valueScore (mi_scores analysis) * 0.4 \<rparr>"

definition selectSystemOutcomes ::
  "MatchWithOdds list \<Rightarrow> SystemConfiguration \<Rightarrow> RiskProfile \<Rightarrow> rng \<Rightarrow>
   error + (SystemMatch option list \<times> rng)" where
  "selectSystemOutcomes matches config riskProfile g =
     (let matchAnalyses = map analyzeMatch matches;
          strategicMatches0 = map (\<lambda>(analysis, index). toStrategicMatch analysis index)
                                (zip matchAnalyses [0..<length matchAnalyses]);
          sorted = sortByStrategicValue strategicMatches0
      in case randomizeOrder sorted riskProfile g of
           Inl e \<Rightarrow> Inl e
         | Inr (strategicMatches, g1) \<Rightarrow>
             Inr (assignOutcomes strategicMatches config riskProfile (replicate 13 None) 0 0 g1))"

text \<open>
  The ranking from which \<open>selectSystemOutcomes\<close> assigns: the value of its
  array \<open>strategicMatches\<close> when the assignment loop starts, after the sort and
  the perturbation.
\<close>

definition strategicRanking ::
  "MatchWithOdds list \<Rightarrow> RiskProfile \<Rightarrow> rng \<Rightarrow> error + (StrategicMatch list \<times> rng)" where
  "strategicRanking matches riskProfile g =
     (let matchAnalyses = map analyzeMatch matches;
          strategicMatches0 = map (\<lambda>(analysis, index). toStrategicMatch analysis index)
                                (zip matchAnalyses [0..<length matchAnalyses]);
          sorted = sortByStrategicValue strategicMatches0
      in randomizeOrder sorted riskProfile g)"

text \<open>
  \<open>expandSystemOutcome\<close>; the \<open>default\<close> branch of its switch is outside the type
  \<open>SystemOutcome\<close>.
\<close>

definition expandSystemOutcome :: "SystemOutcome \<Rightarrow> Outcome list" where
  "expandSystemOutcome systemOutcome =
     (case systemOutcome of
        S1 \<Rightarrow> [O1]
      | SX \<Rightarrow> [OX]
      | S2 \<Rightarrow> [O2]
      | S1X \<Rightarrow> [O1, OX]
      | S12 \<Rightarrow> [O1, O2]
      | SX2 \<Rightarrow> [OX, O2]
      | S1X2 \<Rightarrow> [O1, OX, O2])"

text \<open>
  \<open>generateOutcomeCombinations\<close>: the loop \<open>for (const match of systemMatches)\<close>
  visits a hole as \<open>undefined\<close>, and reading \<open>match.systemOutcome\<close> of it raises a
  \<open>TypeError\<close>.
\<close>

fun expandCombinations :: "SystemMatch option list \<Rightarrow> Outcome list list \<Rightarrow> error + Outcome list list" where
  "expandCombinations [] combinations = Inr combinations"
| "expandCombinations (None # rest) combinations = Inl TypeError"
| "expandCombinations (Some match # rest) combinations =
     (let possibleOutcomes = expandSystemOutcome (m_systemOutcome match);
          newCombinations = concat (map (\<lambda>combination.
                                map (\<lambda>outcome. combination @ [outcome]) possibleOutcomes)
                              combinations)
      in expandCombinations rest newCombinations)"

definition generateOutcomeCombinations :: "SystemMatch option list \<Rightarrow> error + Outcome list list" where
  "generateOutcomeCombinations systemMatches = expandCombinations systemMatches [[]]"

definition outcomeProbability :: "Triple \<Rightarrow> Outcome \<Rightarrow> real" where
  "outcomeProbability probabilities outcome =
     (case outcome of O1 \<Rightarrow> home probabilities | OX \<Rightarrow> draw probabilities | O2 \<Rightarrow> away probabilities)"

definition calculateRowExpectedCorrect :: "Outcome list \<Rightarrow> SystemMatch list \<Rightarrow> real" where
  "calculateRowExpectedCorrect outcomes systemMatches =
     fold (\<lambda>(outcome, index) total.
             total + outcomeProbability (m_probabilities (systemMatches ! index)) outcome)
          (zip outcomes [0..<length outcomes]) 0"

definition estimateRowPayout :: "Outcome list \<Rightarrow> SystemMatch list \<Rightarrow> real" where
  "estimateRowPayout outcomes systemMatches =
     (let totalOdds = fold (\<lambda>(outcome, index) product.
                              let match = systemMatches ! index;
                                  odds = (if outcome = O1 then home (m_odds match)
                                          else if outcome = OX then draw (m_odds match)
                                          else away (m_odds match))
                              in product * odds)
                           (zip outcomes [0..<length outcomes]) 1
      in min (totalOdds * 0.65) 100000)"

definition digitChar :: "nat \<Rightarrow> char" where
  "digitChar d = char_of (48 + d)"

function toString :: "nat \<Rightarrow> string" where
  "toString n = (if n < 10 then [digitChar n] else toString (n div 10) @ [digitChar (n mod 10)])"
  by pat_completeness auto
termination
  by (relation "measure id") auto

text \<open>
  \<open>generateAllSystemRows\<close>. A hole in \<open>systemMatches\<close> has made
  \<open>generateOutcomeCombinations\<close> raise, so the metrics of the rows read an array
  without holes.
\<close>

definition generateAllSystemRows :: "SystemMatch option list \<Rightarrow> RiskProfile \<Rightarrow> error + GeneratedRow list" where
  "generateAllSystemRows systemMatches riskProfile =
     (case generateOutcomeCombinations systemMatches of
        Inl e \<Rightarrow> Inl e
      | Inr allCombinations \<Rightarrow>
          (case those systemMatches of
             None \<Rightarrow> Inl TypeError
           | Some filled \<Rightarrow>
               Inr (map (\<lambda>(outcomes, index).
                          \<lparr> r_id = ''system_row_'' @ toString index,
                            r_outcomes = outcomes,
                            r_expectedCorrect = calculateRowExpectedCorrect outcomes filled,
                            r_expectedPayout = estimateRowPayout outcomes filled,
                            r_riskProfile = riskProfile \<rparr>)
                        (zip allCombinations [0..<length allCombinations]))))"

definition calculateSystemExpectedCorrect :: "GeneratedRow list \<Rightarrow> real" where
  "calculateSystemExpectedCorrect allRows =
     fold (\<lambda>row sum. sum + r_expectedCorrect row) allRows 0 / real (length allRows)"

definition calculateSystemExpectedPayout :: "GeneratedRow list \<Rightarrow> real" where
  "calculateSystemExpectedPayout allRows =
     fold (\<lambda>row sum. sum + r_expectedPayout row) allRows 0 / real (length allRows)"

text \<open>
  \<open>generateSystem\<close>. The call of \<open>generateSystemId\<close> draws once from
  \<open>Math.random\<close>; the identifier it builds from the draw and the clock is not
  part of the record.
\<close>

definition generateSystem ::
  "MatchWithOdds list \<Rightarrow> SystemConfiguration \<Rightarrow> RiskProfile \<Rightarrow> rng \<Rightarrow>
   error + (GeneratedSystem \<times> rng)" where
  "generateSystem matches systemConfig riskProfile g =
     (let config = systemConfig
      in case selectSystemOutcomes matches config riskProfile g of
           Inl e \<Rightarrow> Inl e
         | Inr (systemMatches, g1) \<Rightarrow>
             (case generateAllSystemRows systemMatches riskProfile of
                Inl e \<Rightarrow> Inl e
              | Inr allRows \<Rightarrow>
                  (let expectedCorrect = calculateSystemExpectedCorrect allRows;
                       expectedPayout = calculateSystemExpectedPayout allRows;
                       g2 = snd (Math_random g1)
                   in Inr (\<lparr> s_matches = systemMatches,
                              s_configuration = config,
                              s_allRows = allRows,
                              s_expectedCorrect = expectedCorrect,
                              s_expectedPayout = expectedPayout,
                              s_riskProfile = riskProfile \<rparr>, g2))))"

section \<open>Size of a coverage\<close>

text \<open>
  The number of outcomes that a slot of \<open>systemMatches\<close> contributes to the
  expansion: the length of its expanded system outcome, and 1 for a hole.
\<close>

definition coverageSize :: "SystemMatch option \<Rightarrow> nat" where
  "coverageSize slot =
     (case slot of None \<Rightarrow> 1
      | Some match \<Rightarrow> length (expandSystemOutcome (m_systemOutcome match)))"

section \<open>Example data\<close>

definition example_match :: MatchWithOdds where
  "example_match = \<lparr> m_matchId = ''m'', m_home = ''A'', m_away = ''B'',
                      m_odds = \<lparr> home = 2, draw = 3, away = 4 \<rparr>,
                      m_probabilities = \<lparr> home = 1, draw = 0, away = 0 \<rparr>,
                      m_svenskaSpelData = None \<rparr>"

definition example_row :: GeneratedRow where
  "example_row = \<lparr> r_id = ''row'', r_outcomes = replicate 13 O1, r_expectedCorrect = 13,
                    r_expectedPayout = 0, r_riskProfile = ''safe'' \<rparr>"

definition example_fixture :: MatchWithOdds where
  "example_fixture = \<lparr> m_matchId = ''f'', m_home = ''C'', m_away = ''D'',
                        m_odds = \<lparr> home = 2, draw = 3, away = 4 \<rparr>,
                        m_probabilities = \<lparr> home = 1 / 2, draw = 3 / 10, away = 1 / 5 \<rparr>,
                        m_svenskaSpelData = Some \<lparr> ssd_svenskaFolket = None,
                                                   ssd_expertTips = Some \<lparr> home = 5, draw = 3, away = 2 \<rparr>,
                                                   ssd_league = None \<rparr> \<rparr>"


text \<open>
  The preset \<open>system-96\<close> of \<open>SYSTEM_PRESETS\<close>; the system of 96 rows as
  \<open>StryktipsetSystemCalculator.generateAllValidSystems\<close> lists it, with no singles
  (src/src/lib/utils/svenskaSpelApi.ts, second module); a configuration whose
  counts sum to 1 with a negative count; and a plan of two matches.
\<close>

definition system_96 :: SystemConfiguration where
  "system_96 = \<lparr> c_totalRows = 96, c_cost = 96, c_costPerRow = 1,
                  c_distribution = \<lparr> halves = 5, fulls = 1, singles = 7 \<rparr>,
                  c_description = ''5 halves + 1 full + 7 singles = 96 rows'' \<rparr>"

definition calculator_96 :: SystemConfiguration where
  "calculator_96 = \<lparr> c_totalRows = 96, c_cost = 96, c_costPerRow = 1,
                     c_distribution = \<lparr> halves = 5, fulls = 1, singles = 0 \<rparr>,
                     c_description = ''5 halvgarderingar, 1 helgardering'' \<rparr>"

definition mismatched_config :: SystemConfiguration where
  "mismatched_config = \<lparr> c_totalRows = 4, c_cost = 4, c_costPerRow = 1,
                          c_distribution = \<lparr> halves = 2, fulls = - 1, singles = 0 \<rparr>,
                          c_description = ''mismatch'' \<rparr>"

definition example_plan :: "SystemMatch list" where
  "example_plan = [withSystemOutcome example_match S1X, withSystemOutcome example_fixture S1X2]"

section \<open>Evaluation lemmas\<close>

lemma Math_random_const: "Math_random (\<lambda>_. c) = (c, (\<lambda>_. c))"
  by (simp add: Math_random_def)

lemma valid_rng_const: "0 \<le> c \<Longrightarrow> c < 1 \<Longrightarrow> valid_rng (\<lambda>_. c)"
  by (simp add: valid_rng_def)

lemma upt_13: "[0..<13] = [0, 1, 2, 3, 4, 5, 6, 7, 8, 9, 10, 11, 12 :: nat]"
  by code_simp

section \<open>Odds normalisation\<close>

text \<open>
  Claim C2. For every odds triple with each component strictly greater than 1,
  \<open>oddsToNormalizedProbabilities\<close> returns the implied probabilities \<open>1 / odds\<close>
  divided by their sum, the three results sum to 1 within \<open>1e-9\<close> (exactly, over
  the reals), and the odds \<open>(2, 3, 4)\<close> map to \<open>(6/13, 4/13, 3/13)\<close>, which is
  \<open>(0.4615, 0.3077, 0.2308)\<close> to four decimals.
\<close>

theorem oddsToNormalizedProbabilities_normalized:
  assumes "1 < home odds" and "1 < draw odds" and "1 < away odds"
  shows "home (oddsToNormalizedProbabilities odds) =
           (1 / home odds) / (1 / home odds + 1 / draw odds + 1 / away odds)
       \<and> draw (oddsToNormalizedProbabilities odds) =
           (1 / draw odds) / (1 / home odds + 1 / draw odds + 1 / away odds)
       \<and> away (oddsToNormalizedProbabilities odds) =
           (1 / away odds) / (1 / home odds + 1 / draw odds + 1 / away odds)
       \<and> \<bar>home (oddsToNormalizedProbabilities odds)
            + draw (oddsToNormalizedProbabilities odds)
            + away (oddsToNormalizedProbabilities odds) - 1\<bar> \<le> 1 / 10 ^ 9
       \<and> \<bar>home (oddsToNormalizedProbabilities \<lparr> home = 2, draw = 3, away = 4 \<rparr>) - 0.4615\<bar> < 0.0001
       \<and> \<bar>draw (oddsToNormalizedProbabilities \<lparr> home = 2, draw = 3, away = 4 \<rparr>) - 0.3077\<bar> < 0.0001
       \<and> \<bar>away (oddsToNormalizedProbabilities \<lparr> home = 2, draw = 3, away = 4 \<rparr>) - 0.2308\<bar> < 0.0001"
proof -
  let ?t = "1 / home odds + 1 / draw odds + 1 / away odds"
  have pos: "0 < ?t"
    using assms by (simp add: add_pos_pos)
  have "(1 / home odds) / ?t + (1 / draw odds) / ?t + (1 / away odds) / ?t = ?t / ?t"
    by (simp only: add_divide_distrib)
  also have "\<dots> = 1"
    using pos by simp
  finally have total: "(1 / home odds) / ?t + (1 / draw odds) / ?t + (1 / away odds) / ?t = 1" .
  have general: "\<bar>home (oddsToNormalizedProbabilities odds)
            + draw (oddsToNormalizedProbabilities odds)
            + away (oddsToNormalizedProbabilities odds) - 1\<bar> \<le> 1 / 10 ^ 9"
    using total by (simp add: oddsToNormalizedProbabilities_def Let_def)
  have example: "oddsToNormalizedProbabilities \<lparr> home = 2, draw = 3, away = 4 \<rparr>
                   = \<lparr> home = 6 / 13, draw = 4 / 13, away = 3 / 13 \<rparr>"
    by (simp add: oddsToNormalizedProbabilities_def Let_def)
  show ?thesis
    using general by (simp add: example) (simp add: oddsToNormalizedProbabilities_def Let_def)
qed

theorem oddsToNormalizedProbabilities_normalized_witness:
  "1 < home \<lparr> home = 2, draw = 4, away = (4::real) \<rparr>
   \<and> 1 < draw \<lparr> home = 2, draw = 4, away = (4::real) \<rparr>
   \<and> 1 < away \<lparr> home = 2, draw = 4, away = (4::real) \<rparr>
   \<and> oddsToNormalizedProbabilities \<lparr> home = 2, draw = 4, away = 4 \<rparr>
     = \<lparr> home = 1 / 2, draw = 1 / 4, away = 1 / 4 \<rparr>
   \<and> \<bar>home (oddsToNormalizedProbabilities \<lparr> home = 2, draw = 4, away = 4 \<rparr>)
        + draw (oddsToNormalizedProbabilities \<lparr> home = 2, draw = 4, away = 4 \<rparr>)
        + away (oddsToNormalizedProbabilities \<lparr> home = 2, draw = 4, away = 4 \<rparr>) - 1\<bar> \<le> 1 / 10 ^ 9"
  using oddsToNormalizedProbabilities_normalized [of "\<lparr> home = 2, draw = 4, away = 4 \<rparr>"]
  by (simp add: oddsToNormalizedProbabilities_def Let_def)

section \<open>Risk profiles\<close>

text \<open>
  Claim C10. For every profile string other than \<open>'safe'\<close> and \<open>'risky'\<close>, unknown
  and malformed ones included, \<open>getRiskFactor\<close> returns 0: the profile is
  treated exactly as \<open>'balanced'\<close>, by \<open>getRiskFactor\<close> and by
  \<open>adjustMatchProbabilities\<close>, and no error value is produced.
\<close>

theorem getRiskFactor_unknown_profile:
  assumes "profile \<noteq> ''safe''" and "profile \<noteq> ''risky''"
  shows "getRiskFactor profile = 0
       \<and> getRiskFactor profile = getRiskFactor ''balanced''
       \<and> adjustMatchProbabilities probabilities profile
           = adjustMatchProbabilities probabilities ''balanced''"
  using assms by (simp add: getRiskFactor_def adjustMatchProbabilities_def)

theorem getRiskFactor_unknown_profile_witness:
  "''reckless'' \<noteq> ''safe'' \<and> ''reckless'' \<noteq> ''risky''
   \<and> getRiskFactor ''reckless'' = 0
   \<and> getRiskFactor [] = 0
   \<and> adjustMatchProbabilities \<lparr> home = 1 / 2, draw = 1 / 4, away = 1 / 4 \<rparr> ''reckless''
       = adjustMatchProbabilities \<lparr> home = 1 / 2, draw = 1 / 4, away = 1 / 4 \<rparr> ''balanced''"
  using getRiskFactor_unknown_profile [of "''reckless''" "\<lparr> home = 1 / 2, draw = 1 / 4, away = 1 / 4 \<rparr>"]
        getRiskFactor_unknown_profile [of "[]" "\<lparr> home = 1 / 2, draw = 1 / 4, away = 1 / 4 \<rparr>"]
  by simp

text \<open>
  Claim C7. For every probability triple with components in \<open>[0, 1]\<close> and
  positive sum, \<open>adjustMatchProbabilities\<close> with the profile \<open>'balanced'\<close> returns
  the input divided by its sum, which sums to 1; when the input already sums to
  1 the adjustment returns the input unchanged.
\<close>

theorem adjustMatchProbabilities_balanced:
  assumes "0 \<le> home p" and "home p \<le> 1"
    and "0 \<le> draw p" and "draw p \<le> 1"
    and "0 \<le> away p" and "away p \<le> 1"
    and "0 < home p + draw p + away p"
  shows "adjustMatchProbabilities p ''balanced''
           = \<lparr> home = home p / (home p + draw p + away p),
               draw = draw p / (home p + draw p + away p),
               away = away p / (home p + draw p + away p) \<rparr>
       \<and> home (adjustMatchProbabilities p ''balanced'')
           + draw (adjustMatchProbabilities p ''balanced'')
           + away (adjustMatchProbabilities p ''balanced'') = 1
       \<and> (home p + draw p + away p = 1 \<longrightarrow> adjustMatchProbabilities p ''balanced'' = p)"
proof -
  let ?s = "home p + draw p + away p"
  have adj: "adjustProbabilityForRisk x 0 = x" if "0 \<le> x" "x \<le> 1" for x
    using that by (simp add: adjustProbabilityForRisk_def)
  have shape: "adjustMatchProbabilities p ''balanced''
           = \<lparr> home = home p / ?s, draw = draw p / ?s, away = away p / ?s \<rparr>"
    using assms by (simp add: adjustMatchProbabilities_def getRiskFactor_def adj Let_def)
  have "home p / ?s + draw p / ?s + away p / ?s = ?s / ?s"
    by (simp only: add_divide_distrib)
  also have "\<dots> = 1"
    using assms(7) by simp
  finally have total: "home p / ?s + draw p / ?s + away p / ?s = 1" .
  have ident: "adjustMatchProbabilities p ''balanced'' = p" if "?s = 1"
    using that by (simp add: shape)
  show ?thesis
    using total ident by (simp add: shape)
qed

theorem adjustMatchProbabilities_balanced_witness:
  "adjustMatchProbabilities \<lparr> home = 1 / 2, draw = 1 / 4, away = 1 / 4 \<rparr> ''balanced''
     = \<lparr> home = 1 / 2, draw = 1 / 4, away = 1 / 4 \<rparr>
   \<and> adjustMatchProbabilities \<lparr> home = 1 / 2, draw = 1 / 2, away = 1 \<rparr> ''balanced''
     = \<lparr> home = 1 / 4, draw = 1 / 4, away = 1 / 2 \<rparr>"
  using adjustMatchProbabilities_balanced [of "\<lparr> home = 1 / 2, draw = 1 / 4, away = 1 / 4 \<rparr>"]
        adjustMatchProbabilities_balanced [of "\<lparr> home = 1 / 2, draw = 1 / 2, away = 1 \<rparr>"]
  by simp

section \<open>Stake sizing\<close>

text \<open>
  Claim C3. For every probability in \<open>[0, 1]\<close>, odds greater than 1 and
  non-negative bankroll (the one passed, or the default 1000),
  \<open>calculateOptimalStake\<close> returns 0 when the edge \<open>p * odds - 1\<close> is at most 0,
  and \<open>min ((edge / (odds - 1)) * bankroll) (0.25 * bankroll)\<close> when the edge is
  positive; the stake never exceeds a quarter of the bankroll.
\<close>

theorem calculateOptimalStake_capped:
  assumes "0 \<le> p" and "p \<le> 1" and "1 < odds"
    and "bankroll = (case bankrollArg of None \<Rightarrow> 1000 | Some b \<Rightarrow> b)"
    and "0 \<le> bankroll"
  shows "(p * odds - 1 \<le> 0 \<longrightarrow> calculateOptimalStake p odds bankrollArg = 0)
       \<and> (0 < p * odds - 1 \<longrightarrow>
            calculateOptimalStake p odds bankrollArg
              = min (((p * odds - 1) / (odds - 1)) * bankroll) (0.25 * bankroll))
       \<and> calculateOptimalStake p odds bankrollArg \<le> 0.25 * bankroll"
proof -
  have stake: "calculateOptimalStake p odds bankrollArg
                 = (if p * odds - 1 \<le> 0 then 0
                    else min (((p * odds - 1) / (odds - 1)) * bankroll) (0.25 * bankroll))"
    by (simp add: calculateOptimalStake_def Let_def assms(4))
  have cap: "calculateOptimalStake p odds bankrollArg \<le> 0.25 * bankroll"
  proof (cases "p * odds - 1 \<le> 0")
    case True
    then show ?thesis
      using assms(5) by (simp add: stake)
  next
    case False
    then have "calculateOptimalStake p odds bankrollArg
                 = min (((p * odds - 1) / (odds - 1)) * bankroll) (0.25 * bankroll)"
      by (simp add: stake)
    then show ?thesis
      by (simp only: min.cobounded2)
  qed
  show ?thesis
    using cap by (simp add: stake)
qed

theorem calculateOptimalStake_capped_witness:
  "calculateOptimalStake (3 / 5) 2 (Some 1000) = 200
   \<and> calculateOptimalStake (9 / 10) 2 None = 250
   \<and> calculateOptimalStake (1 / 2) (3 / 2) (Some 1000) = 0
   \<and> calculateOptimalStake (3 / 5) 2 (Some 1000) \<le> 0.25 * 1000"
  using calculateOptimalStake_capped [of "3 / 5" 2 1000 "Some 1000"]
        calculateOptimalStake_capped [of "9 / 10" 2 1000 None]
        calculateOptimalStake_capped [of "1 / 2" "3 / 2" 1000 "Some 1000"]
  by simp

section \<open>Simulation\<close>

lemma simulateRow_trial_exactly:
  assumes "simulateRow_trial ps ms (res, tot, g) = (res1, tot1, g1)"
  shows "k \<in> {10, 11, 12, 13} \<Longrightarrow> exactly res1 k = exactly res k
           + (if fst (simulateMatchday ps ms g) = k then 1 else 0)"
    and "g1 = snd (simulateMatchday ps ms g)"
  using assms
  by (auto simp: simulateRow_trial_def exactly_def Let_def split: prod.splits if_splits)

lemma simulateRow_loop_exactly:
  assumes "simulateRow_loop n ps ms (res, tot, g) = (res1, tot1, g1)" and "k \<in> {10, 11, 12, 13}"
  shows "exactly res1 k = exactly res k + real (count_list (trialCounts n ps ms g) k)"
  using assms
proof (induction n arbitrary: res tot g)
  case 0
  then show ?case by simp
next
  case (Suc n)
  obtain res2 tot2 g2 where step: "simulateRow_trial ps ms (res, tot, g) = (res2, tot2, g2)"
    by (metis prod_cases3)
  have rest: "simulateRow_loop n ps ms (res2, tot2, g2) = (res1, tot1, g1)"
    using Suc.prems(1) step by simp
  have "exactly res1 k = exactly res2 k + real (count_list (trialCounts n ps ms g2) k)"
    using Suc.IH [OF rest Suc.prems(2)] .
  moreover have "exactly res2 k = exactly res k + (if fst (simulateMatchday ps ms g) = k then 1 else 0)"
    using simulateRow_trial_exactly(1) [OF step Suc.prems(2)] by simp
  moreover have "g2 = snd (simulateMatchday ps ms g)"
    using simulateRow_trial_exactly(2) [OF step] .
  ultimately show ?case
    by (simp split: prod.splits)
qed

lemma simulateRow_exactly:
  assumes "k \<in> {10, 11, 12, 13}"
    and "n = (case iterationsArg of None \<Rightarrow> 100000 | Some m \<Rightarrow> m)"
  shows "exactly (sr_correctResults (fst (simulateRow row ms iterationsArg g))) k
           = real (count_list (trialCounts n (r_outcomes row) ms g) k) / real n"
proof -
  obtain res1 tot1 g1 where loop: "simulateRow_loop n (r_outcomes row) ms
       (\<lparr> exactly10 = 0, exactly11 = 0, exactly12 = 0, exactly13 = 0,
          atLeast10 = 0, atLeast11 = 0, atLeast12 = 0, atLeast13 = 0 \<rparr>, 0, g) = (res1, tot1, g1)"
    by (metis prod_cases3)
  have "exactly res1 k = real (count_list (trialCounts n (r_outcomes row) ms g) k)"
    using simulateRow_loop_exactly [OF loop assms(1)] by (simp add: exactly_def)
  moreover have "exactly (sr_correctResults (fst (simulateRow row ms iterationsArg g))) k
                   = exactly res1 k / real n"
    using loop by (simp add: simulateRow_def Let_def exactly_def assms(2) [symmetric])
  ultimately show ?thesis by simp
qed

text \<open>
  Claim C8. For every simulation run (with at least one trial; the number of
  trials is the one passed, or the default 100000), the \<open>expectedPayout\<close> that
  \<open>simulateRow\<close> reports is the sum over \<open>k\<close> in \<open>{10, 11, 12, 13}\<close> of the
  probability of exactly \<open>k\<close> correct results, which is the number of trials of
  the run with exactly \<open>k\<close> correct divided by the number of trials and is what
  the result reports as \<open>exactly<k>\<close>, times the payout of \<open>k\<close>; the payouts are
  positive and strictly increasing from 10 to 13.
\<close>

theorem simulateRow_expectedPayout:
  assumes "iterations = (case iterationsArg of None \<Rightarrow> 100000 | Some n \<Rightarrow> n)"
    and "0 < iterations"
  shows "sr_expectedPayout (fst (simulateRow row matches iterationsArg g))
           = (\<Sum>k\<in>{10, 11, 12, 13}.
                (real (count_list (trialCounts iterations (r_outcomes row) matches g) k) / real iterations)
                  * exactly payouts k)
       \<and> sr_expectedPayout (fst (simulateRow row matches iterationsArg g))
           = (\<Sum>k\<in>{10, 11, 12, 13}.
                exactly (sr_correctResults (fst (simulateRow row matches iterationsArg g))) k
                  * exactly payouts k)
       \<and> 0 < exactly payouts 10
       \<and> exactly payouts 10 < exactly payouts 11
       \<and> exactly payouts 11 < exactly payouts 12
       \<and> exactly payouts 12 < exactly payouts 13"
proof -
  let ?r = "fst (simulateRow row matches iterationsArg g)"
  have pay: "sr_expectedPayout ?r = calculateExpectedPayout (sr_correctResults ?r)"
    by (simp add: simulateRow_def Let_def split: prod.splits)
  have sum4: "calculateExpectedPayout b = (\<Sum>k\<in>{10, 11, 12, 13}. exactly b k * exactly payouts k)" for b
    by (simp add: calculateExpectedPayout_def exactly_def)
  have second: "sr_expectedPayout ?r
           = (\<Sum>k\<in>{10, 11, 12, 13}. exactly (sr_correctResults ?r) k * exactly payouts k)"
    by (simp only: pay sum4)
  have first: "(\<Sum>k\<in>{10, 11, 12, 13}. exactly (sr_correctResults ?r) k * exactly payouts k)
      = (\<Sum>k\<in>{10, 11, 12, 13}.
                (real (count_list (trialCounts iterations (r_outcomes row) matches g) k) / real iterations)
                  * exactly payouts k)"
    by (rule sum.cong) (simp_all only: simulateRow_exactly [OF _ assms(1)])
  have mono: "0 < exactly payouts 10 \<and> exactly payouts 10 < exactly payouts 11
       \<and> exactly payouts 11 < exactly payouts 12 \<and> exactly payouts 12 < exactly payouts 13"
    by (simp add: exactly_def payouts_def)
  show ?thesis
    using second first mono by simp
qed

lemma simulateMatchday_example:
  "simulateMatchday (replicate 13 O1) (replicate 13 example_match) (\<lambda>_. 0) = (13, (\<lambda>_. 0))"
  by (simp add: simulateMatchday_def selectWeightedRandomOutcome_def Math_random_const
      example_match_def upt_13)

lemma simulateRow_loop_2:
  "simulateRow_loop 2 p m st = simulateRow_trial p m (simulateRow_trial p m st)"
  by (simp add: numeral_2_eq_2)

theorem simulateRow_expectedPayout_witness:
  "(2::nat) = (case Some 2 of None \<Rightarrow> 100000 | Some n \<Rightarrow> n) \<and> 0 < (2::nat)
   \<and> sr_expectedPayout (fst (simulateRow example_row (replicate 13 example_match) (Some 2) (\<lambda>_. 0)))
       = 50000
   \<and> (\<Sum>k\<in>{10, 11, 12, 13}.
         (real (count_list (trialCounts 2 (r_outcomes example_row) (replicate 13 example_match) (\<lambda>_. 0)) k)
            / real (2::nat)) * exactly payouts k) = 50000"
proof -
  have arg: "(2::nat) = (case Some 2 of None \<Rightarrow> 100000 | Some n \<Rightarrow> n)"
    by simp
  have pos: "0 < (2::nat)"
    by simp
  have run: "sr_expectedPayout (fst (simulateRow example_row (replicate 13 example_match) (Some 2) (\<lambda>_. 0)))
               = 50000"
    by (simp add: simulateRow_def simulateRow_trial_def simulateMatchday_example example_row_def
        simulateRow_loop_2 calculateExpectedPayout_def payouts_def)
  have sum: "sr_expectedPayout (fst (simulateRow example_row (replicate 13 example_match) (Some 2) (\<lambda>_. 0)))
      = (\<Sum>k\<in>{10, 11, 12, 13}.
         (real (count_list (trialCounts 2 (r_outcomes example_row) (replicate 13 example_match) (\<lambda>_. 0)) k)
            / real (2::nat)) * exactly payouts k)"
    by (rule conjunct1 [OF simulateRow_expectedPayout [OF arg pos]])
  show ?thesis
    using arg pos run sum [symmetric] by (simp only: simp_thms)
qed

section \<open>Half coverage under the safe profile\<close>







section \<open>System generation\<close>

subsection \<open>Expansion\<close>

lemma distinct_expandSystemOutcome: "distinct (expandSystemOutcome so)"
  by (cases so) (simp_all add: expandSystemOutcome_def)

lemma branch_length:
  "length (concat (map (\<lambda>combination. map (\<lambda>outcome. combination @ [outcome]) os) combos))
     = length combos * length os"
  by (induction combos) simp_all

lemma branch_set:
  "set (concat (map (\<lambda>combination. map (\<lambda>outcome. combination @ [outcome]) os) combos))
     = {c @ [oc] | c oc. c \<in> set combos \<and> oc \<in> set os}"
  by auto

lemma branch_distinct:
  assumes "distinct combos" and "distinct os"
  shows "distinct (concat (map (\<lambda>combination. map (\<lambda>outcome. combination @ [outcome]) os) combos))"
  using assms
proof (induction combos)
  case Nil
  then show ?case by simp
next
  case (Cons c combos)
  have "distinct (map (\<lambda>outcome. c @ [outcome]) os)"
    using Cons.prems(2) by (simp add: distinct_map inj_on_def)
  moreover have "set (map (\<lambda>outcome. c @ [outcome]) os)
       \<inter> set (concat (map (\<lambda>combination. map (\<lambda>outcome. combination @ [outcome]) os) combos)) = {}"
    using Cons.prems(1) by auto
  ultimately show ?case
    using Cons by simp
qed

lemma expandCombinations_total:
  assumes "\<forall>slot\<in>set sms. slot \<noteq> None"
  shows "\<exists>rows. expandCombinations sms combos = Inr rows"
  using assms
proof (induction sms arbitrary: combos)
  case Nil
  then show ?case by simp
next
  case (Cons slot sms)
  then obtain m where "slot = Some m" by auto
  then show ?case using Cons by (simp add: Let_def)
qed

lemma expandCombinations_filled:
  assumes "expandCombinations sms combos = Inr rows"
  shows "\<forall>slot\<in>set sms. slot \<noteq> None"
  using assms
proof (induction sms arbitrary: combos)
  case Nil
  then show ?case by simp
next
  case (Cons slot sms)
  then show ?case by (cases slot) (auto simp: Let_def)
qed

lemma expandCombinations_length:
  assumes "expandCombinations sms combos = Inr rows"
  shows "length rows = length combos * prod_list (map coverageSize sms)"
  using assms
proof (induction sms arbitrary: combos)
  case Nil
  then show ?case by simp
next
  case (Cons slot sms)
  show ?case
  proof (cases slot)
    case None
    then show ?thesis using Cons.prems by simp
  next
    case (Some m)
    then show ?thesis
      using Cons.IH Cons.prems by (simp add: Let_def branch_length coverageSize_def)
  qed
qed

lemma expandCombinations_distinct:
  assumes "expandCombinations sms combos = Inr rows"
    and "distinct combos" and "\<forall>c\<in>set combos. length c = k"
  shows "distinct rows \<and> (\<forall>r\<in>set rows. length r = k + length sms)"
  using assms
proof (induction sms arbitrary: combos k)
  case Nil
  then show ?case by simp
next
  case (Cons slot sms)
  show ?case
  proof (cases slot)
    case None
    then show ?thesis using Cons.prems by simp
  next
    case (Some m)
    let ?os = "expandSystemOutcome (m_systemOutcome m)"
    let ?new = "concat (map (\<lambda>combination. map (\<lambda>outcome. combination @ [outcome]) ?os) combos)"
    have run: "expandCombinations sms ?new = Inr rows"
      using Cons.prems(1) Some by (simp add: Let_def)
    have d: "distinct ?new"
      using branch_distinct [OF Cons.prems(2) distinct_expandSystemOutcome] .
    have l: "\<forall>c\<in>set ?new. length c = Suc k"
      using Cons.prems(3) by auto
    show ?thesis
      using Cons.IH [OF run d l] by simp
  qed
qed



subsection \<open>The random source and the ranking\<close>

lemma Math_random_valid:
  assumes "valid_rng g" and "Math_random g = (r, g1)"
  shows "0 \<le> r" and "r < 1" and "valid_rng g1"
  using assms by (auto simp: valid_rng_def Math_random_def)

lemma randomIndex_valid:
  assumes "valid_rng g" and "randomIndex n g = (k, g1)" and "0 < n"
  shows "k < n" and "valid_rng g1"
proof -
  obtain r where r: "Math_random g = (r, g1)" and k: "k = nat \<lfloor>r * real n\<rfloor>"
    using assms(2) by (auto simp: randomIndex_def Let_def split: prod.splits)
  have bounds: "0 \<le> r" "r < 1"
    using Math_random_valid [OF assms(1) r] by simp_all
  have "r * real n < real n"
    using bounds assms(3) by simp
  then have "\<lfloor>r * real n\<rfloor> < int n"
    by (simp add: floor_less_iff)
  moreover have "0 \<le> \<lfloor>r * real n\<rfloor>"
    using bounds by simp
  ultimately show "k < n"
    using k by linarith
  show "valid_rng g1"
    using Math_random_valid(3) [OF assms(1) r] .
qed

lemma randomIndex_valid_rng:
  assumes "valid_rng g" and "randomIndex n g = (k, g1)"
  shows "valid_rng g1"
  using assms by (auto simp: randomIndex_def Let_def split: prod.splits dest: Math_random_valid(3))

lemma mset_swapAt:
  assumes "i < length xs" and "j < length xs"
  shows "mset (swapAt xs i j) = mset xs"
  using mset_swap [OF assms(2) assms(1)] by (simp add: swapAt_def)

lemma length_swapAt: "length (swapAt xs i j) = length xs"
  by (simp add: swapAt_def)

lemma randomSwaps_mset:
  assumes "valid_rng g" and "randomSwaps k xs g = (ys, g1)"
  shows "mset ys = mset xs \<and> valid_rng g1"
  using assms
proof (induction k arbitrary: xs g)
  case 0
  then show ?case by simp
next
  case (Suc k)
  obtain idx1 ga where i1: "randomIndex (length xs) g = (idx1, ga)"
    by (cases "randomIndex (length xs) g")
  obtain idx2 gb where i2: "randomIndex (length xs) ga = (idx2, gb)"
    by (cases "randomIndex (length xs) ga")
  have va: "valid_rng ga"
    using randomIndex_valid_rng [OF Suc.prems(1) i1] .
  have vb: "valid_rng gb"
    using randomIndex_valid_rng [OF va i2] .
  have rest: "randomSwaps k (swapAt xs idx1 idx2) gb = (ys, g1)"
    using Suc.prems(2) i1 i2 by (simp add: Let_def)
  have same: "mset (swapAt xs idx1 idx2) = mset xs"
  proof (cases "xs = []")
    case True
    then show ?thesis by (simp add: swapAt_def)
  next
    case False
    then have pos: "0 < length xs" by simp
    show ?thesis
      using mset_swapAt [OF randomIndex_valid(1) [OF Suc.prems(1) i1 pos]
                            randomIndex_valid(1) [OF va i2 pos]] .
  qed
  show ?case
    using Suc.IH [OF vb rest] same by simp
qed

lemma addNoise_map:
  assumes "addNoise xs g = (ys, g1)" and "\<And>a v. f (a\<lparr> sm_strategicValue := v \<rparr>) = f a"
  shows "map f ys = map f xs"
  using assms(1)
proof (induction xs arbitrary: ys g g1)
  case Nil
  then show ?case by simp
next
  case (Cons a xs)
  obtain r ga where r: "Math_random g = (r, ga)"
    by (cases "Math_random g")
  obtain rest gb where rest: "addNoise xs ga = (rest, gb)"
    by (cases "addNoise xs ga")
  have "ys = a\<lparr> sm_strategicValue := sm_strategicValue a + (r - 0.5) * 0.8 \<rparr> # rest"
    using Cons.prems r rest by (simp add: Let_def)
  then show ?case
    using Cons.IH [OF rest] assms(2) by simp
qed

lemma addNoise_valid:
  assumes "addNoise xs g = (ys, g1)" and "valid_rng g"
  shows "valid_rng g1"
  using assms
proof (induction xs arbitrary: ys g g1)
  case Nil
  then show ?case by simp
next
  case (Cons a xs)
  obtain r ga where r: "Math_random g = (r, ga)"
    by (cases "Math_random g")
  obtain rest gb where rest: "addNoise xs ga = (rest, gb)"
    by (cases "addNoise xs ga")
  have "g1 = gb"
    using Cons.prems(1) r rest by (simp add: Let_def)
  then show ?case
    using Cons.IH [OF rest Math_random_valid(3) [OF Cons.prems(2) r]] by simp
qed

lemma mset_sortByStrategicValue: "mset (sortByStrategicValue xs) = mset xs"
  by (simp add: sortByStrategicValue_def)

lemma randomizeOrder_mset:
  assumes "randomizeOrder xs riskProfile g = Inr (ys, g1)" and "valid_rng g"
    and inv: "\<And>a v. f (a\<lparr> sm_strategicValue := v \<rparr>) = f a"
  shows "mset (map f ys) = mset (map f xs)"
proof -
  consider (risky) "riskProfile = ''risky''"
    | (balanced) "riskProfile \<noteq> ''risky''" "riskProfile = ''balanced''"
    | (safe) "riskProfile \<noteq> ''risky''" "riskProfile \<noteq> ''balanced''"
    by blast
  then show ?thesis
  proof cases
    case risky
    obtain noisy ga where noisy: "addNoise xs g = (noisy, ga)"
      by (cases "addNoise xs g")
    obtain r gb where r: "Math_random ga = (r, gb)"
      by (cases "Math_random ga")
    let ?resorted = "sortByStrategicValue noisy"
    let ?n = "nat \<lfloor>real (length ?resorted) * (0.5 + r * 0.5)\<rfloor>"
    obtain swapped gc where sw: "randomSwaps ?n ?resorted gb = (swapped, gc)"
      by (cases "randomSwaps ?n ?resorted gb")
    obtain r1 gd where r1: "Math_random gc = (r1, gd)"
      by (cases "Math_random gc")
    have ys: "ys = (if r1 < 0.3 then rev swapped else swapped)"
      using assms(1) risky noisy r sw r1 by (simp add: randomizeOrder_def Let_def)
    have va: "valid_rng ga"
      using addNoise_valid [OF noisy assms(2)] .
    have vb: "valid_rng gb"
      using Math_random_valid(3) [OF va r] .
    have "mset swapped = mset ?resorted"
      using randomSwaps_mset [OF vb sw] by simp
    then have "mset swapped = mset noisy"
      by (simp add: mset_sortByStrategicValue)
    then have "mset (map f ys) = mset (map f noisy)"
      using ys by simp
    then show ?thesis
      using addNoise_map [OF noisy inv] by simp
  next
    case balanced
    obtain r ga where r: "Math_random g = (r, ga)"
      by (cases "Math_random g")
    show ?thesis
    proof (cases "r < 0.7")
      case False
      then show ?thesis
        using assms(1) balanced r by (simp add: randomizeOrder_def Let_def)
    next
      case True
      let ?middle = "take 5 (drop 4 xs)"
      have ne: "?middle \<noteq> []"
        using assms(1) balanced r True by (auto simp: randomizeOrder_def Let_def split: if_splits)
      obtain middle1 gb where sw: "randomSwaps 3 ?middle ga = (middle1, gb)"
        by (cases "randomSwaps 3 ?middle ga")
      have ys: "ys = take 4 xs @ middle1 @ drop 9 xs"
        using assms(1) balanced r True ne sw by (simp add: randomizeOrder_def Let_def)
      have "mset middle1 = mset ?middle"
        using randomSwaps_mset [OF Math_random_valid(3) [OF assms(2) r] sw] by simp
      then have "mset ys = mset (take 4 xs @ ?middle @ drop 9 xs)"
        using ys by simp
      moreover have "take 4 xs @ ?middle @ drop 9 xs = xs"
      proof -
        have "take 5 (drop 4 xs) @ drop 9 xs = drop 4 xs"
          using append_take_drop_id [of 5 "drop 4 xs"] by simp
        then show ?thesis by simp
      qed
      ultimately show ?thesis by simp
    qed
  next
    case safe
    then show ?thesis
      using assms(1) by (simp add: randomizeOrder_def)
  qed
qed

lemma randomizeOrder_total:
  assumes "4 < length xs"
  shows "\<exists>ys g1. randomizeOrder xs riskProfile g = Inr (ys, g1)"
proof -
  have "take 5 (drop 4 xs) \<noteq> []"
    using assms by simp
  then show ?thesis
    by (simp add: randomizeOrder_def Let_def split: prod.splits)
qed

subsection \<open>The assignment loop\<close>

lemma selectIntelligentHalf_is_half:
  "fst (selectIntelligentHalf analysis riskProfile g) \<in> {S1X, S12, SX2}"
  by (simp add: selectIntelligentHalf_def Let_def split: prod.splits)

lemma coverageSize_withSystemOutcome:
  "coverageSize (Some (withSystemOutcome match so)) = length (expandSystemOutcome so)"
  by (simp add: coverageSize_def withSystemOutcome_def)

lemma coverageSize_half:
  "coverageSize (Some (withSystemOutcome match (fst (selectIntelligentHalf analysis riskProfile g)))) = 2"
  using selectIntelligentHalf_is_half [of analysis riskProfile g]
  by (auto simp: coverageSize_withSystemOutcome expandSystemOutcome_def)

lemma coverageSize_full: "coverageSize (Some (withSystemOutcome match S1X2)) = 3"
  by (simp add: coverageSize_withSystemOutcome expandSystemOutcome_def)

lemma coverageSize_single: "coverageSize (Some (withSystemOutcome match (ofOutcome outcome))) = 1"
  by (cases outcome) (simp_all add: coverageSize_withSystemOutcome expandSystemOutcome_def ofOutcome_def)

lemma prod_list_fill_hole:
  assumes "i < length sms" and "sms ! i = None"
  shows "prod_list (map coverageSize (sms[i := Some v]))
           = prod_list (map coverageSize sms) * coverageSize (Some v)"
  using assms
proof (induction sms arbitrary: i)
  case Nil
  then show ?case by simp
next
  case (Cons slot sms)
  show ?case
  proof (cases i)
    case 0
    then show ?thesis using Cons.prems by (simp add: coverageSize_def)
  next
    case (Suc j)
    then show ?thesis using Cons.IH [of j] Cons.prems by simp
  qed
qed

lemma assignOutcomes_step:
  assumes "assignOutcomes (a # rest) config rp sms hA fA g = (sms', g')"
  shows "\<exists>so hA' fA' g1.
           assignOutcomes rest config rp
             (array_set sms (sm_index a) (withSystemOutcome (mi_match a) so)) hA' fA' g1 = (sms', g')
         \<and> 2 ^ min (Suc n) (nat (halves (c_distribution config) - int hA))
             * 3 ^ min (Suc n - min (Suc n) (nat (halves (c_distribution config) - int hA)))
                       (nat (fulls (c_distribution config) - int fA))
           = coverageSize (Some (withSystemOutcome (mi_match a) so))
             * (2 ^ min n (nat (halves (c_distribution config) - int hA'))
                * 3 ^ min (n - min n (nat (halves (c_distribution config) - int hA')))
                          (nat (fulls (c_distribution config) - int fA')) :: nat)"
proof -
  let ?H = "halves (c_distribution config)"
  let ?F = "fulls (c_distribution config)"
  consider (half) "int hA < ?H" | (full) "\<not> int hA < ?H" "int fA < ?F"
    | (single) "\<not> int hA < ?H" "\<not> int fA < ?F"
    by blast
  then show ?thesis
  proof cases
    case half
    obtain so g1 where sel: "selectIntelligentHalf a rp g = (so, g1)"
      by (cases "selectIntelligentHalf a rp g")
    have run: "assignOutcomes rest config rp
             (array_set sms (sm_index a) (withSystemOutcome (mi_match a) so)) (hA + 1) fA g1 = (sms', g')"
      using assms half sel by (simp add: Let_def)
    have size: "coverageSize (Some (withSystemOutcome (mi_match a) so)) = 2"
      using coverageSize_half [of "mi_match a" a rp g] sel by simp
    have "nat (?H - int hA) = Suc (nat (?H - int (hA + 1)))"
      using half by simp
    then have "2 ^ min (Suc n) (nat (?H - int hA))
             * 3 ^ min (Suc n - min (Suc n) (nat (?H - int hA))) (nat (?F - int fA))
           = 2 * (2 ^ min n (nat (?H - int (hA + 1)))
                * 3 ^ min (n - min n (nat (?H - int (hA + 1)))) (nat (?F - int fA)) :: nat)"
      by simp
    then show ?thesis
      using run size by (metis (no_types, lifting))
  next
    case full
    have run: "assignOutcomes rest config rp
             (array_set sms (sm_index a) (withSystemOutcome (mi_match a) S1X2)) hA (fA + 1) g = (sms', g')"
      using assms full by (simp add: Let_def)
    have h0: "nat (?H - int hA) = 0"
      using full(1) by simp
    have "nat (?F - int fA) = Suc (nat (?F - int (fA + 1)))"
      using full(2) by simp
    then have "2 ^ min (Suc n) (nat (?H - int hA))
             * 3 ^ min (Suc n - min (Suc n) (nat (?H - int hA))) (nat (?F - int fA))
           = 3 * (2 ^ min n (nat (?H - int hA))
                * 3 ^ min (n - min n (nat (?H - int hA))) (nat (?F - int (fA + 1))) :: nat)"
      by (simp add: h0)
    then show ?thesis
      using run coverageSize_full [of "mi_match a"] by (metis (no_types, lifting))
  next
    case single
    obtain outcome g1 where sel: "selectIntelligentSingle a rp g = (outcome, g1)"
      by (cases "selectIntelligentSingle a rp g")
    have run: "assignOutcomes rest config rp
             (array_set sms (sm_index a) (withSystemOutcome (mi_match a) (ofOutcome outcome))) hA fA g1
               = (sms', g')"
      using assms single sel by (simp add: Let_def)
    have h0: "nat (?H - int hA) = 0" and f0: "nat (?F - int fA) = 0"
      using single by simp_all
    have "2 ^ min (Suc n) (nat (?H - int hA))
             * 3 ^ min (Suc n - min (Suc n) (nat (?H - int hA))) (nat (?F - int fA))
           = 1 * (2 ^ min n (nat (?H - int hA))
                * 3 ^ min (n - min n (nat (?H - int hA))) (nat (?F - int fA)) :: nat)"
      by (simp add: h0 f0)
    then show ?thesis
      using run coverageSize_single [of "mi_match a" outcome] by (metis (no_types, lifting))
  qed
qed

lemma assignOutcomes_invariant:
  assumes "assignOutcomes xs config rp sms hA fA g = (sms', g')"
    and "distinct (map sm_index xs)"
    and "\<forall>a\<in>set xs. sm_index a < length sms \<and> sms ! sm_index a = None"
  shows "length sms' = length sms
       \<and> (\<forall>i<length sms. i \<notin> sm_index ` set xs \<longrightarrow> sms' ! i = sms ! i)
       \<and> (\<forall>a\<in>set xs. \<exists>so. sms' ! sm_index a = Some (withSystemOutcome (mi_match a) so))
       \<and> prod_list (map coverageSize sms')
           = prod_list (map coverageSize sms)
             * (2 ^ min (length xs) (nat (halves (c_distribution config) - int hA))
                * 3 ^ min (length xs - min (length xs) (nat (halves (c_distribution config) - int hA)))
                          (nat (fulls (c_distribution config) - int fA)))"
  using assms
proof (induction xs arbitrary: sms hA fA g)
  case Nil
  then show ?case by simp
next
  case (Cons a rest)
  let ?idx = "sm_index a"
  from assignOutcomes_step [OF Cons.prems(1), of "length rest"]
  obtain so hA' fA' g1 where
    run: "assignOutcomes rest config rp
            (array_set sms ?idx (withSystemOutcome (mi_match a) so)) hA' fA' g1 = (sms', g')"
    and pow: "2 ^ min (Suc (length rest)) (nat (halves (c_distribution config) - int hA))
             * 3 ^ min (Suc (length rest) - min (Suc (length rest)) (nat (halves (c_distribution config) - int hA)))
                       (nat (fulls (c_distribution config) - int fA))
           = coverageSize (Some (withSystemOutcome (mi_match a) so))
             * (2 ^ min (length rest) (nat (halves (c_distribution config) - int hA'))
                * 3 ^ min (length rest - min (length rest) (nat (halves (c_distribution config) - int hA')))
                          (nat (fulls (c_distribution config) - int fA')) :: nat)"
    by blast
  let ?v = "withSystemOutcome (mi_match a) so"
  have idx: "?idx < length sms" and hole: "sms ! ?idx = None"
    using Cons.prems(3) by simp_all
  have set_eq: "array_set sms ?idx ?v = sms[?idx := Some ?v]"
    using idx by (simp add: array_set_def)
  let ?sms1 = "sms[?idx := Some ?v]"
  have run1: "assignOutcomes rest config rp ?sms1 hA' fA' g1 = (sms', g')"
    using run set_eq by simp
  have d: "distinct (map sm_index rest)" and fresh: "?idx \<notin> sm_index ` set rest"
    using Cons.prems(2) by simp_all
  have holes: "\<forall>b\<in>set rest. sm_index b < length ?sms1 \<and> ?sms1 ! sm_index b = None"
    using Cons.prems(3) fresh by (auto simp: nth_list_update)
  note IH = Cons.IH [OF run1 d holes]
  have len: "length sms' = length sms"
    using IH by simp
  have keep: "\<forall>i<length sms. i \<notin> sm_index ` set (a # rest) \<longrightarrow> sms' ! i = sms ! i"
    using IH by (auto simp: nth_list_update)
  have here: "sms' ! ?idx = Some ?v"
    using IH idx fresh by simp
  have found: "\<forall>b\<in>set (a # rest). \<exists>so. sms' ! sm_index b = Some (withSystemOutcome (mi_match b) so)"
    using IH here by auto
  have "prod_list (map coverageSize sms')
          = prod_list (map coverageSize ?sms1)
            * (2 ^ min (length rest) (nat (halves (c_distribution config) - int hA'))
                * 3 ^ min (length rest - min (length rest) (nat (halves (c_distribution config) - int hA')))
                          (nat (fulls (c_distribution config) - int fA')))"
    using IH by simp
  also have "prod_list (map coverageSize ?sms1) = prod_list (map coverageSize sms) * coverageSize (Some ?v)"
    using prod_list_fill_hole [OF idx hole] .
  finally have prod: "prod_list (map coverageSize sms')
           = prod_list (map coverageSize sms)
             * (2 ^ min (length (a # rest)) (nat (halves (c_distribution config) - int hA))
                * 3 ^ min (length (a # rest) - min (length (a # rest)) (nat (halves (c_distribution config) - int hA)))
                          (nat (fulls (c_distribution config) - int fA)))"
    using pow by (simp add: mult.assoc)
  show ?case
    using len keep found prod by blast
qed

subsection \<open>Generation of a system\<close>

lemma those_filled:
  assumes "\<forall>slot\<in>set sms. slot \<noteq> None"
  shows "\<exists>filled. those sms = Some filled"
  using assms
proof (induction sms)
  case Nil
  then show ?case by simp
next
  case (Cons slot sms)
  then show ?case by (cases slot) auto
qed

lemma initial_ranking:
  "map (\<lambda>a. (sm_index a, mi_match a))
       (map (\<lambda>(analysis, index). toStrategicMatch analysis index)
            (zip (map analyzeMatch matches) [0..<length (map analyzeMatch matches)]))
     = map (\<lambda>i. (i, matches ! i)) [0..<length matches]"
  by (rule nth_equalityI) (simp_all add: toStrategicMatch_def analyzeMatch_def Let_def)

lemma selectSystemOutcomes_structure:
  assumes "length matches = 13" and "valid_rng g"
  shows "\<exists>sms g'. selectSystemOutcomes matches config rp g = Inr (sms, g')
           \<and> length sms = 13
           \<and> (\<forall>i<13. \<exists>so. sms ! i = Some (withSystemOutcome (matches ! i) so))
           \<and> prod_list (map coverageSize sms)
               = 2 ^ min 13 (nat (halves (c_distribution config)))
                 * 3 ^ min (13 - min 13 (nat (halves (c_distribution config))))
                           (nat (fulls (c_distribution config)))"
proof -
  let ?key = "\<lambda>a :: StrategicMatch. (sm_index a, mi_match a)"
  let ?xs0 = "map (\<lambda>(analysis, index). toStrategicMatch analysis index)
                (zip (map analyzeMatch matches) [0..<length (map analyzeMatch matches)])"
  let ?sorted = "sortByStrategicValue ?xs0"
  have key0: "map ?key ?xs0 = map (\<lambda>i. (i, matches ! i)) [0..<13]"
    using initial_ranking [of matches] assms(1) by simp
  have "length ?sorted = 13"
    using assms(1) by (simp add: sortByStrategicValue_def)
  then have "4 < length ?sorted"
    by simp
  from randomizeOrder_total [OF this, of rp g]
  obtain ys g1 where order: "randomizeOrder ?sorted rp g = Inr (ys, g1)"
    by blast
  have "mset (map ?key ys) = mset (map ?key ?sorted)"
    by (rule randomizeOrder_mset [OF order assms(2)]) simp
  also have "\<dots> = mset (map ?key ?xs0)"
    by (simp only: mset_map mset_sortByStrategicValue)
  finally have perm0: "mset (map ?key ys) = mset (map ?key ?xs0)" .
  have perm: "mset (map ?key ys) = mset (map (\<lambda>i. (i, matches ! i)) [0..<13])"
    using perm0 by (simp only: key0)
  have "mset (map fst (map ?key ys)) = mset (map fst (map (\<lambda>i. (i, matches ! i)) [0..<13]))"
    using perm by (metis mset_map)
  then have idx_perm: "mset (map sm_index ys) = mset [0..<13]"
    by (simp add: comp_def)
  have d: "distinct (map sm_index ys)"
    using mset_eq_imp_distinct_iff [OF idx_perm] by simp
  have idx_set: "sm_index ` set ys = {0..<13}"
    using mset_eq_setD [OF idx_perm] by simp
  have "set (map ?key ys) = set (map (\<lambda>i. (i, matches ! i)) [0..<13])"
    using mset_eq_setD [OF perm] .
  then have same: "\<forall>a\<in>set ys. mi_match a = matches ! sm_index a"
    by (auto simp: image_iff)
  obtain sms g' where assign: "assignOutcomes ys config rp (replicate 13 None) 0 0 g1 = (sms, g')"
    by (cases "assignOutcomes ys config rp (replicate 13 None) 0 0 g1")
  have in_range: "\<forall>a\<in>set ys. sm_index a < 13"
    using idx_set by auto
  have holes: "\<forall>a\<in>set ys. sm_index a < length (replicate 13 (None :: SystemMatch option))
                 \<and> replicate 13 (None :: SystemMatch option) ! sm_index a = None"
    using in_range by simp
  note inv = assignOutcomes_invariant [OF assign d holes]
  have len_ys: "length ys = 13"
    using mset_eq_length [OF idx_perm] by simp
  have len: "length sms = 13"
    using inv by simp
  have slots: "\<forall>i<13. \<exists>so. sms ! i = Some (withSystemOutcome (matches ! i) so)"
  proof (intro allI impI)
    fix i :: nat
    assume "i < 13"
    then have "i \<in> sm_index ` set ys"
      using idx_set by simp
    then obtain a where a: "a \<in> set ys" "sm_index a = i"
      by auto
    then show "\<exists>so. sms ! i = Some (withSystemOutcome (matches ! i) so)"
      using inv same by (metis (no_types, lifting))
  qed
  have "prod_list (map coverageSize (replicate 13 (None :: SystemMatch option))) = 1"
    by (simp add: coverageSize_def)
  then have prod: "prod_list (map coverageSize sms)
               = 2 ^ min 13 (nat (halves (c_distribution config)))
                 * 3 ^ min (13 - min 13 (nat (halves (c_distribution config))))
                           (nat (fulls (c_distribution config)))"
    using inv len_ys by simp
  have "selectSystemOutcomes matches config rp g = Inr (sms, g')"
    using order assign by (simp add: selectSystemOutcomes_def Let_def)
  then show ?thesis
    using len slots prod by blast
qed

lemma generateAllSystemRows_outcomes:
  assumes "generateOutcomeCombinations sms = Inr combos"
  shows "\<exists>rows. generateAllSystemRows sms rp = Inr rows \<and> map r_outcomes rows = combos"
proof -
  have "\<forall>slot\<in>set sms. slot \<noteq> None"
    using expandCombinations_filled assms by (simp add: generateOutcomeCombinations_def)
  from those_filled [OF this] obtain filled where "those sms = Some filled"
    by blast
  then show ?thesis
    using assms
    by (simp add: generateAllSystemRows_def comp_def case_prod_unfold map_fst_zip [unfolded comp_def])
qed

lemma generateSystem_structure:
  assumes "length matches = 13" and "valid_rng g"
  shows "\<exists>sys g' combos. generateSystem matches config rp g = Inr (sys, g')
           \<and> generateOutcomeCombinations (s_matches sys) = Inr combos
           \<and> map r_outcomes (s_allRows sys) = combos
           \<and> length combos
               = 2 ^ min 13 (nat (halves (c_distribution config)))
                 * 3 ^ min (13 - min 13 (nat (halves (c_distribution config))))
                           (nat (fulls (c_distribution config)))
           \<and> length (s_matches sys) = 13
           \<and> (\<forall>i<13. \<exists>so. s_matches sys ! i = Some (withSystemOutcome (matches ! i) so))
           \<and> s_configuration sys = config"
proof -
  from selectSystemOutcomes_structure [OF assms, of config rp]
  obtain sms g' where sel: "selectSystemOutcomes matches config rp g = Inr (sms, g')"
    and len: "length sms = 13"
    and slots: "\<forall>i<13. \<exists>so. sms ! i = Some (withSystemOutcome (matches ! i) so)"
    and prod: "prod_list (map coverageSize sms)
               = 2 ^ min 13 (nat (halves (c_distribution config)))
                 * 3 ^ min (13 - min 13 (nat (halves (c_distribution config))))
                           (nat (fulls (c_distribution config)))"
    by blast
  have "\<forall>slot\<in>set sms. slot \<noteq> None"
    using slots len by (metis in_set_conv_nth option.distinct(1))
  from expandCombinations_total [OF this, of "[[]]"]
  obtain combos where combos: "generateOutcomeCombinations sms = Inr combos"
    by (auto simp: generateOutcomeCombinations_def)
  have count: "length combos = prod_list (map coverageSize sms)"
    using expandCombinations_length [of sms "[[]]" combos] combos
    by (simp add: generateOutcomeCombinations_def)
  from generateAllSystemRows_outcomes [OF combos, of rp]
  obtain rows where rows: "generateAllSystemRows sms rp = Inr rows" "map r_outcomes rows = combos"
    by blast
  let ?sys = "\<lparr> s_matches = sms, s_configuration = config, s_allRows = rows,
                s_expectedCorrect = calculateSystemExpectedCorrect rows,
                s_expectedPayout = calculateSystemExpectedPayout rows,
                s_riskProfile = rp \<rparr>"
  have "generateSystem matches config rp g = Inr (?sys, snd (Math_random g'))"
    using sel rows(1) by (simp add: generateSystem_def Let_def)
  moreover have "generateOutcomeCombinations (s_matches ?sys) = Inr combos"
    using combos by simp
  moreover have "map r_outcomes (s_allRows ?sys) = combos"
    using rows(2) by simp
  moreover have "length (s_matches ?sys) = 13"
    using len by simp
  moreover have "\<forall>i<13. \<exists>so. s_matches ?sys ! i = Some (withSystemOutcome (matches ! i) so)"
    using slots by simp
  moreover have "s_configuration ?sys = config"
    by simp
  ultimately show ?thesis
    using count prod by (metis (no_types, lifting))
qed

lemma generateOutcomeCombinations_example:
  "generateOutcomeCombinations (map Some example_plan)
     = Inr [[O1, O1], [O1, OX], [O1, O2], [OX, O1], [OX, OX], [OX, O2]]"
  by (simp add: generateOutcomeCombinations_def example_plan_def withSystemOutcome_def
      expandSystemOutcome_def)

subsection \<open>The plan of the example slate\<close>

lemma sort_key_const:
  assumes "\<forall>x\<in>set xs. f x = c"
  shows "sort_key f xs = xs"
  using assms
proof (induction xs)
  case Nil
  then show ?case by simp
next
  case (Cons x xs)
  then show ?case by (cases xs) simp_all
qed

lemma replicate_13: "replicate 13 x = [x, x, x, x, x, x, x, x, x, x, x, x, x]"
  by (simp add: eval_nat_numeral)

lemma mi_match_analyzeMatch: "mi_match (analyzeMatch m) = m"
  by (simp add: analyzeMatch_def Let_def)

lemma toStrategicMatch_fields:
  "sm_index (toStrategicMatch a i) = i" "mi_match (toStrategicMatch a i) = mi_match a"
  by (simp_all add: toStrategicMatch_def)

lemma example_match_probabilities:
  "m_probabilities example_match = \<lparr> home = 1, draw = 0, away = 0 \<rparr>"
  by (simp add: example_match_def)

lemma example_match_scores:
  "calculateValueScore (m_odds example_match) (m_probabilities example_match) = 1"
  "calculateUncertainty (m_probabilities example_match) = 0"
  "calculateHomeAdvantage (m_home example_match) (m_away example_match) None = 0.6"
  "calculateContrarianScore (m_odds example_match) None = 0"
     apply (simp add: calculateValueScore_def example_match_def Let_def)
    apply (simp add: calculateUncertainty_def example_match_def Let_def)
   apply (simp add: calculateHomeAdvantage_def example_match_def Let_def bigTeams_def
      str_includes_def sublist_code)
  apply (simp add: calculateContrarianScore_def)
  done

lemma example_match_picks:
  "getSafePick (m_probabilities example_match) (1 / 2) = O1"
  "getValuePick (m_odds example_match) (m_probabilities example_match) = O1"
  "getContrarianPick (m_odds example_match) None 0 = O1"
  by (simp_all add: getSafePick_def getValuePick_def getContrarianPick_def example_match_def Let_def)

lemma analyzeMatch_example:
  "analyzeMatch example_match
     = \<lparr> mi_match = example_match,
         mi_scores = \<lparr> sc_valueScore = 1, sc_publicSentiment = 0.5, sc_expertConsensus = 0.5,
                       sc_homeAdvantage = 0.6, sc_uncertaintyScore = 0, sc_contrarian = 0 \<rparr>,
         mi_recommendations = \<lparr> rec_safePick = O1, rec_valuePick = O1, rec_contrarian = O1,
                                rec_confidence = 0.69 \<rparr> \<rparr>"
proof -
  have sd: "m_svenskaSpelData example_match = None"
    by (simp add: example_match_def)
  show ?thesis
    by (simp add: analyzeMatch_def Let_def generateRecommendations_def sd example_match_scores
        example_match_picks calculatePublicSentiment_def calculateExpertConsensus_def
        calculateOverallConfidence_def)
qed

lemma selectIntelligentHalf_example:
  "selectIntelligentHalf (toStrategicMatch (analyzeMatch example_match) i) ''safe'' g = (S12, g)"
  by (simp add: analyzeMatch_example selectIntelligentHalf_def toStrategicMatch_def
      example_match_probabilities)

lemma selectIntelligentSingle_example:
  "selectIntelligentSingle (toStrategicMatch (analyzeMatch example_match) i) ''safe'' g = (O1, g)"
  by (simp add: analyzeMatch_example selectIntelligentSingle_def toStrategicMatch_def)

lemma strategicValue_example:
  "sm_strategicValue (toStrategicMatch (analyzeMatch example_match) i) = 0.4"
  by (simp add: analyzeMatch_example toStrategicMatch_def)

lemma selectSystemOutcomes_example:
  "selectSystemOutcomes (replicate 13 example_match) system_96 ''safe'' g
     = Inr (map (\<lambda>so. Some (withSystemOutcome example_match so))
              [S12, S12, S12, S12, S12, S1X2, S1, S1, S1, S1, S1, S1, S1], g)"
proof -
  let ?xs = "map (\<lambda>i. toStrategicMatch (analyzeMatch example_match) i) [0..<13]"
  have xs: "map (\<lambda>(analysis, index). toStrategicMatch analysis index)
                (zip (map analyzeMatch (replicate 13 example_match))
                   [0..<length (map analyzeMatch (replicate 13 example_match))]) = ?xs"
    by (rule nth_equalityI) simp_all
  have sorted: "sortByStrategicValue ?xs = ?xs"
    unfolding sortByStrategicValue_def
    by (rule sort_key_const [where c = "- 0.4"]) (auto simp: strategicValue_example)
  show ?thesis
    unfolding selectSystemOutcomes_def Let_def xs sorted
    by (simp add: randomizeOrder_def upt_13 selectIntelligentHalf_example
        selectIntelligentSingle_example toStrategicMatch_fields mi_match_analyzeMatch
        system_96_def array_set_def ofOutcome_def replicate_13 Let_def)
qed

subsection \<open>Row count\<close>

text \<open>
  Claim C1. For every slate of exactly 13 matches and every configuration whose
  counts are not negative and sum to 13, whatever the risk profile and the
  values that \<open>Math.random\<close> returns, \<open>generateSystem\<close> returns a system, and the
  number of rows that \<open>generateOutcomeCombinations\<close> expands from its coverage
  plan, which is the number of rows of the system, is exactly
  \<open>2 ^ halves * 3 ^ fulls\<close>.
\<close>

theorem generateSystem_row_count:
  assumes "length matches = 13" and "valid_rng g"
    and "0 \<le> halves (c_distribution config)"
    and "0 \<le> fulls (c_distribution config)"
    and "0 \<le> singles (c_distribution config)"
    and "halves (c_distribution config) + fulls (c_distribution config)
           + singles (c_distribution config) = 13"
  shows "\<exists>sys g' combos.
           generateSystem matches config riskProfile g = Inr (sys, g')
         \<and> generateOutcomeCombinations (s_matches sys) = Inr combos
         \<and> map r_outcomes (s_allRows sys) = combos
         \<and> length combos
             = 2 ^ nat (halves (c_distribution config)) * 3 ^ nat (fulls (c_distribution config))
         \<and> length (s_allRows sys)
             = 2 ^ nat (halves (c_distribution config)) * 3 ^ nat (fulls (c_distribution config))"
proof -
  let ?h = "nat (halves (c_distribution config))"
  let ?f = "nat (fulls (c_distribution config))"
  have "?h + ?f \<le> 13"
    using assms(3-6) by linarith
  then have h: "min 13 ?h = ?h" and f: "min (13 - ?h) ?f = ?f"
    by simp_all
  from generateSystem_structure [OF assms(1,2), of config riskProfile]
  obtain sys g' combos where
    "generateSystem matches config riskProfile g = Inr (sys, g')"
    "generateOutcomeCombinations (s_matches sys) = Inr combos"
    "map r_outcomes (s_allRows sys) = combos"
    "length combos = 2 ^ min 13 ?h * 3 ^ min (13 - min 13 ?h) ?f"
    by blast
  moreover from this have "length (s_allRows sys) = length combos"
    by (metis length_map)
  ultimately show ?thesis
    by (simp add: h f)
qed

theorem generateSystem_row_count_witness:
  "length (replicate 13 example_match) = 13 \<and> valid_rng (\<lambda>_. 0)
   \<and> 0 \<le> halves (c_distribution system_96)
   \<and> 0 \<le> fulls (c_distribution system_96)
   \<and> 0 \<le> singles (c_distribution system_96)
   \<and> halves (c_distribution system_96) + fulls (c_distribution system_96)
       + singles (c_distribution system_96) = 13
   \<and> \<not> isl (generateSystem (replicate 13 example_match) system_96 ''safe'' (\<lambda>_. 0))
   \<and> map (map_option m_systemOutcome)
         (s_matches (fst (projr (generateSystem (replicate 13 example_match) system_96 ''safe'' (\<lambda>_. 0)))))
       = map Some [S12, S12, S12, S12, S12, S1X2, S1, S1, S1, S1, S1, S1, S1]
   \<and> length (s_allRows (fst (projr (generateSystem (replicate 13 example_match) system_96 ''safe'' (\<lambda>_. 0)))))
       = 96"
proof -
  have h1: "length (replicate 13 example_match) = 13"
    by simp
  have h2: "valid_rng (\<lambda>_. 0)"
    by (simp add: valid_rng_const)
  have h3: "0 \<le> halves (c_distribution system_96)"
    and h4: "0 \<le> fulls (c_distribution system_96)"
    and h5: "0 \<le> singles (c_distribution system_96)"
    and h6: "halves (c_distribution system_96) + fulls (c_distribution system_96)
       + singles (c_distribution system_96) = 13"
    by (simp_all add: system_96_def)
  have n: "2 ^ nat (halves (c_distribution system_96)) * 3 ^ nat (fulls (c_distribution system_96))
             = (96 :: nat)"
    by (simp add: system_96_def)
  from generateSystem_row_count [OF h1 h2 h3 h4 h5 h6, of "''safe''"]
  obtain sys g' where
    gen: "generateSystem (replicate 13 example_match) system_96 ''safe'' (\<lambda>_. 0) = Inr (sys, g')"
    and rows: "length (s_allRows sys) = 96"
    unfolding n by blast
  have "s_matches sys = map (\<lambda>so. Some (withSystemOutcome example_match so))
                          [S12, S12, S12, S12, S12, S1X2, S1, S1, S1, S1, S1, S1, S1]"
    using gen selectSystemOutcomes_example [of "\<lambda>_. 0"]
    by (auto simp: generateSystem_def Let_def split: sum.splits)
  then have plan: "map (map_option m_systemOutcome) (s_matches sys)
                     = map Some [S12, S12, S12, S12, S12, S1X2, S1, S1, S1, S1, S1, S1, S1]"
    by (simp add: withSystemOutcome_def)
  show ?thesis
    using h1 h2 h3 h4 h5 h6 gen rows plan by simp
qed

subsection \<open>Allocation along the ranking\<close>

lemma selectSystemOutcomes_ranking:
  "selectSystemOutcomes matches config riskProfile g =
     (case strategicRanking matches riskProfile g of
        Inl e \<Rightarrow> Inl e
      | Inr (strategicMatches, g1) \<Rightarrow>
          Inr (assignOutcomes strategicMatches config riskProfile (replicate 13 None) 0 0 g1))"
  by (simp add: selectSystemOutcomes_def strategicRanking_def Let_def)

lemma assignOutcomes_reads_halves_and_fulls:
  assumes "halves (c_distribution config') = halves (c_distribution config)"
    and "fulls (c_distribution config') = fulls (c_distribution config)"
  shows "assignOutcomes xs config' rp sms hA fA g = assignOutcomes xs config rp sms hA fA g"
  using assms by (induction xs arbitrary: sms hA fA g) (simp_all add: Let_def split: prod.splits)

lemma generateSystem_reads_selection:
  assumes "selectSystemOutcomes matches config' rp g = selectSystemOutcomes matches config rp g"
    and "generateSystem matches config rp g = Inr (sys, g')"
  shows "generateSystem matches config' rp g = Inr (sys\<lparr> s_configuration := config' \<rparr>, g')"
  using assms by (auto simp: generateSystem_def Let_def split: sum.splits prod.splits)

lemma strategicRanking_permutation:
  assumes "length matches = 13" and "valid_rng g"
  shows "\<exists>ys g1. strategicRanking matches rp g = Inr (ys, g1)
           \<and> mset (map sm_index ys) = mset [0..<13]
           \<and> (\<forall>a\<in>set ys. mi_match a = matches ! sm_index a)"
proof -
  let ?key = "\<lambda>a :: StrategicMatch. (sm_index a, mi_match a)"
  let ?xs0 = "map (\<lambda>(analysis, index). toStrategicMatch analysis index)
                (zip (map analyzeMatch matches) [0..<length (map analyzeMatch matches)])"
  let ?sorted = "sortByStrategicValue ?xs0"
  have key0: "map ?key ?xs0 = map (\<lambda>i. (i, matches ! i)) [0..<13]"
    using initial_ranking [of matches] assms(1) by simp
  have "length ?sorted = 13"
    using assms(1) by (simp add: sortByStrategicValue_def)
  then have "4 < length ?sorted"
    by simp
  from randomizeOrder_total [OF this, of rp g]
  obtain ys g1 where order: "randomizeOrder ?sorted rp g = Inr (ys, g1)"
    by blast
  have "mset (map ?key ys) = mset (map ?key ?sorted)"
    by (rule randomizeOrder_mset [OF order assms(2)]) simp
  also have "\<dots> = mset (map ?key ?xs0)"
    by (simp only: mset_map mset_sortByStrategicValue)
  finally have perm0: "mset (map ?key ys) = mset (map ?key ?xs0)" .
  have perm: "mset (map ?key ys) = mset (map (\<lambda>i. (i, matches ! i)) [0..<13])"
    using perm0 by (simp only: key0)
  have "mset (map fst (map ?key ys)) = mset (map fst (map (\<lambda>i. (i, matches ! i)) [0..<13]))"
    using perm by (metis mset_map)
  then have idx_perm: "mset (map sm_index ys) = mset [0..<13]"
    by (simp add: comp_def)
  have "set (map ?key ys) = set (map (\<lambda>i. (i, matches ! i)) [0..<13])"
    using mset_eq_setD [OF perm] .
  then have same: "\<forall>a\<in>set ys. mi_match a = matches ! sm_index a"
    by (auto simp: image_iff)
  have "strategicRanking matches rp g = Inr (ys, g1)"
    using order by (simp add: strategicRanking_def Let_def)
  then show ?thesis
    using idx_perm same by blast
qed

lemma assignOutcomes_step_class:
  assumes "assignOutcomes (a # rest) config rp sms hA fA g = (sms', g')"
  shows "\<exists>so hA' fA' g1.
           assignOutcomes rest config rp
             (array_set sms (sm_index a) (withSystemOutcome (mi_match a) so)) hA' fA' g1 = (sms', g')
         \<and> length (expandSystemOutcome so)
             = (if 0 < nat (halves (c_distribution config) - int hA) then 2
                else if 0 < nat (fulls (c_distribution config) - int fA) then 3 else 1)
         \<and> nat (halves (c_distribution config) - int hA')
             = nat (halves (c_distribution config) - int hA) - 1
         \<and> nat (fulls (c_distribution config) - int fA')
             = (if 0 < nat (halves (c_distribution config) - int hA)
                then nat (fulls (c_distribution config) - int fA)
                else nat (fulls (c_distribution config) - int fA) - 1)"
proof -
  let ?H = "halves (c_distribution config)"
  let ?F = "fulls (c_distribution config)"
  consider (half) "int hA < ?H" | (full) "\<not> int hA < ?H" "int fA < ?F"
    | (single) "\<not> int hA < ?H" "\<not> int fA < ?F"
    by blast
  then show ?thesis
  proof cases
    case half
    obtain so g1 where sel: "selectIntelligentHalf a rp g = (so, g1)"
      by (cases "selectIntelligentHalf a rp g")
    have run: "assignOutcomes rest config rp
             (array_set sms (sm_index a) (withSystemOutcome (mi_match a) so)) (hA + 1) fA g1 = (sms', g')"
      using assms half sel by (simp add: Let_def)
    have "so \<in> {S1X, S12, SX2}"
      using selectIntelligentHalf_is_half [of a rp g] sel by simp
    then have size: "length (expandSystemOutcome so) = 2"
      by (auto simp: expandSystemOutcome_def)
    have "0 < nat (?H - int hA)"
      and "nat (?H - int (hA + 1)) = nat (?H - int hA) - 1"
      using half by simp_all
    then show ?thesis
      using run size by (metis (no_types, lifting))
  next
    case full
    have run: "assignOutcomes rest config rp
             (array_set sms (sm_index a) (withSystemOutcome (mi_match a) S1X2)) hA (fA + 1) g = (sms', g')"
      using assms full by (simp add: Let_def)
    have size: "length (expandSystemOutcome S1X2) = 3"
      by (simp add: expandSystemOutcome_def)
    have "\<not> 0 < nat (?H - int hA)" and "nat (?H - int hA) = nat (?H - int hA) - 1"
      and "0 < nat (?F - int fA)"
      and "nat (?F - int (fA + 1)) = nat (?F - int fA) - 1"
      using full by simp_all
    then show ?thesis
      using run size by (metis (no_types, lifting))
  next
    case single
    obtain outcome g1 where sel: "selectIntelligentSingle a rp g = (outcome, g1)"
      by (cases "selectIntelligentSingle a rp g")
    have run: "assignOutcomes rest config rp
             (array_set sms (sm_index a) (withSystemOutcome (mi_match a) (ofOutcome outcome))) hA fA g1
               = (sms', g')"
      using assms single sel by (simp add: Let_def)
    have size: "length (expandSystemOutcome (ofOutcome outcome)) = 1"
      by (cases outcome) (simp_all add: expandSystemOutcome_def ofOutcome_def)
    have "\<not> 0 < nat (?H - int hA)" and "nat (?H - int hA) = nat (?H - int hA) - 1"
      and "\<not> 0 < nat (?F - int fA)"
      and "nat (?F - int fA) = nat (?F - int fA) - 1"
      using single by simp_all
    then show ?thesis
      using run size by (metis (no_types, lifting))
  qed
qed

lemma assignOutcomes_classes:
  assumes "assignOutcomes xs config rp sms hA fA g = (sms', g')"
    and "distinct (map sm_index xs)"
    and "\<forall>a\<in>set xs. sm_index a < length sms \<and> sms ! sm_index a = None"
  shows "\<forall>k<length xs. \<exists>so.
           sms' ! sm_index (xs ! k) = Some (withSystemOutcome (mi_match (xs ! k)) so)
         \<and> length (expandSystemOutcome so)
             = (if k < nat (halves (c_distribution config) - int hA) then 2
                else if k < nat (halves (c_distribution config) - int hA)
                           + nat (fulls (c_distribution config) - int fA) then 3
                else 1)"
  using assms
proof (induction xs arbitrary: sms hA fA g)
  case Nil
  then show ?case by simp
next
  case (Cons a rest)
  let ?idx = "sm_index a"
  let ?nh = "nat (halves (c_distribution config) - int hA)"
  let ?nf = "nat (fulls (c_distribution config) - int fA)"
  from assignOutcomes_step_class [OF Cons.prems(1)]
  obtain so hA' fA' g1 where
    run: "assignOutcomes rest config rp
            (array_set sms ?idx (withSystemOutcome (mi_match a) so)) hA' fA' g1 = (sms', g')"
    and size: "length (expandSystemOutcome so) = (if 0 < ?nh then 2 else if 0 < ?nf then 3 else 1)"
    and nh': "nat (halves (c_distribution config) - int hA') = ?nh - 1"
    and nf': "nat (fulls (c_distribution config) - int fA') = (if 0 < ?nh then ?nf else ?nf - 1)"
    by blast
  let ?v = "withSystemOutcome (mi_match a) so"
  have idx: "?idx < length sms" and hole: "sms ! ?idx = None"
    using Cons.prems(3) by simp_all
  let ?sms1 = "sms[?idx := Some ?v]"
  have run1: "assignOutcomes rest config rp ?sms1 hA' fA' g1 = (sms', g')"
    using run idx by (simp add: array_set_def)
  have d: "distinct (map sm_index rest)" and fresh: "?idx \<notin> sm_index ` set rest"
    using Cons.prems(2) by simp_all
  have holes: "\<forall>b\<in>set rest. sm_index b < length ?sms1 \<and> ?sms1 ! sm_index b = None"
    using Cons.prems(3) fresh by (auto simp: nth_list_update)
  have here: "sms' ! ?idx = Some ?v"
    using assignOutcomes_invariant [OF run1 d holes] idx fresh by simp
  note IH = Cons.IH [OF run1 d holes]
  show ?case
  proof (intro allI impI)
    fix k
    assume k: "k < length (a # rest)"
    show "\<exists>so. sms' ! sm_index ((a # rest) ! k) = Some (withSystemOutcome (mi_match ((a # rest) ! k)) so)
         \<and> length (expandSystemOutcome so)
             = (if k < ?nh then 2 else if k < ?nh + ?nf then 3 else 1)"
    proof (cases k)
      case 0
      then show ?thesis
        using here size by auto
    next
      case (Suc j)
      then have j: "j < length rest"
        using k by simp
      from IH j obtain so' where
        slot: "sms' ! sm_index (rest ! j) = Some (withSystemOutcome (mi_match (rest ! j)) so')"
        and cls: "length (expandSystemOutcome so')
             = (if j < ?nh - 1 then 2
                else if j < ?nh - 1 + (if 0 < ?nh then ?nf else ?nf - 1) then 3
                else 1)"
        unfolding nh' nf' by blast
      have "(if j < ?nh - 1 then 2
                else if j < ?nh - 1 + (if 0 < ?nh then ?nf else ?nf - 1) then 3
                else 1)
            = (if Suc j < ?nh then 2 else if Suc j < ?nh + ?nf then 3 else (1::nat))"
        by auto
      then show ?thesis
        using slot cls Suc by auto
    qed
  qed
qed

subsection \<open>Configurations that do not fit the slate\<close>

text \<open>
  Claim C4, as the code has it. \<open>generateSystem\<close> does not validate the
  configuration and has no configuration error: for every slate of 13 matches
  and every configuration, also one whose counts do not sum to 13 or are
  negative, it returns a system. The ranking, the order of the matches after the
  sort and the perturbation, is a permutation of the slate, and the allocation
  follows it: the match at position \<open>k\<close> of the ranking gets a coverage of two
  outcomes (a half) when \<open>k < halves\<close>, of all three outcomes (a full) when
  \<open>halves \<le> k < halves + fulls\<close>, and of one outcome (a single) otherwise, a
  negative count acting as 0. So the system has
  \<open>2 ^ min 13 halves * 3 ^ min (13 - min 13 halves) fulls\<close> rows. The count
  \<open>singles\<close> is never read: a configuration with the same \<open>halves\<close> and \<open>fulls\<close>
  gives the same system, apart from the configuration stored in it.
\<close>

theorem generateSystem_accepts_any_configuration:
  assumes "length matches = 13" and "valid_rng g"
  shows "\<exists>sys g' ranking g1.
           generateSystem matches config riskProfile g = Inr (sys, g')
         \<and> s_configuration sys = config
         \<and> strategicRanking matches riskProfile g = Inr (ranking, g1)
         \<and> mset (map sm_index ranking) = mset [0..<13]
         \<and> (\<forall>k<13. \<exists>so.
                s_matches sys ! sm_index (ranking ! k)
                  = Some (withSystemOutcome (matches ! sm_index (ranking ! k)) so)
              \<and> length (expandSystemOutcome so)
                  = (if k < nat (halves (c_distribution config)) then 2
                     else if k < nat (halves (c_distribution config))
                                + nat (fulls (c_distribution config)) then 3
                     else 1))
         \<and> length (s_allRows sys)
             = 2 ^ min 13 (nat (halves (c_distribution config)))
               * 3 ^ min (13 - min 13 (nat (halves (c_distribution config))))
                         (nat (fulls (c_distribution config)))
         \<and> (\<forall>config'.
                halves (c_distribution config') = halves (c_distribution config)
              \<and> fulls (c_distribution config') = fulls (c_distribution config) \<longrightarrow>
                generateSystem matches config' riskProfile g
                  = Inr (sys\<lparr> s_configuration := config' \<rparr>, g'))"
proof -
  from strategicRanking_permutation [OF assms, of riskProfile]
  obtain ys g1 where rank: "strategicRanking matches riskProfile g = Inr (ys, g1)"
    and perm: "mset (map sm_index ys) = mset [0..<13]"
    and same: "\<forall>a\<in>set ys. mi_match a = matches ! sm_index a"
    by blast
  obtain sms g2 where assign:
    "assignOutcomes ys config riskProfile (replicate 13 None) 0 0 g1 = (sms, g2)"
    by (cases "assignOutcomes ys config riskProfile (replicate 13 None) 0 0 g1")
  have sel: "selectSystemOutcomes matches config riskProfile g = Inr (sms, g2)"
    using rank assign by (simp add: selectSystemOutcomes_ranking)
  have len: "length ys = 13"
    using mset_eq_length [OF perm] by simp
  have d: "distinct (map sm_index ys)"
    using mset_eq_imp_distinct_iff [OF perm] by simp
  have "sm_index ` set ys = {0..<13}"
    using mset_eq_setD [OF perm] by simp
  then have in_range: "\<forall>a\<in>set ys. sm_index a < 13"
    by auto
  have holes: "\<forall>a\<in>set ys. sm_index a < length (replicate 13 (None :: SystemMatch option))
                 \<and> replicate 13 (None :: SystemMatch option) ! sm_index a = None"
    using in_range by simp
  have classes: "\<forall>k<13. \<exists>so.
           sms ! sm_index (ys ! k) = Some (withSystemOutcome (matches ! sm_index (ys ! k)) so)
         \<and> length (expandSystemOutcome so)
             = (if k < nat (halves (c_distribution config)) then 2
                else if k < nat (halves (c_distribution config))
                           + nat (fulls (c_distribution config)) then 3
                else 1)"
  proof (intro allI impI)
    fix k :: nat
    assume k: "k < 13"
    then have "ys ! k \<in> set ys"
      using len by simp
    then have m: "mi_match (ys ! k) = matches ! sm_index (ys ! k)"
      using same by blast
    from assignOutcomes_classes [OF assign d holes] k len
    obtain so where "sms ! sm_index (ys ! k) = Some (withSystemOutcome (mi_match (ys ! k)) so)"
      and "length (expandSystemOutcome so)
             = (if k < nat (halves (c_distribution config)) then 2
                else if k < nat (halves (c_distribution config))
                           + nat (fulls (c_distribution config)) then 3
                else 1)"
      by auto
    then show "\<exists>so.
           sms ! sm_index (ys ! k) = Some (withSystemOutcome (matches ! sm_index (ys ! k)) so)
         \<and> length (expandSystemOutcome so)
             = (if k < nat (halves (c_distribution config)) then 2
                else if k < nat (halves (c_distribution config))
                           + nat (fulls (c_distribution config)) then 3
                else 1)"
      using m by auto
  qed
  from generateSystem_structure [OF assms, of config riskProfile]
  obtain sys g' combos where gen: "generateSystem matches config riskProfile g = Inr (sys, g')"
    and conf: "s_configuration sys = config"
    and rows: "map r_outcomes (s_allRows sys) = combos"
    and count: "length combos
               = 2 ^ min 13 (nat (halves (c_distribution config)))
                 * 3 ^ min (13 - min 13 (nat (halves (c_distribution config))))
                           (nat (fulls (c_distribution config)))"
    by blast
  have plan: "s_matches sys = sms"
    using gen sel by (auto simp: generateSystem_def Let_def split: sum.splits)
  have n: "length (s_allRows sys)
             = 2 ^ min 13 (nat (halves (c_distribution config)))
               * 3 ^ min (13 - min 13 (nat (halves (c_distribution config))))
                         (nat (fulls (c_distribution config)))"
    using rows count by (metis length_map)
  have other: "generateSystem matches config' riskProfile g
                  = Inr (sys\<lparr> s_configuration := config' \<rparr>, g')"
    if "halves (c_distribution config') = halves (c_distribution config)
              \<and> fulls (c_distribution config') = fulls (c_distribution config)" for config'
  proof -
    have eq: "assignOutcomes xs config' riskProfile slots 0 0 gg
                = assignOutcomes xs config riskProfile slots 0 0 gg" for xs slots gg
      using assignOutcomes_reads_halves_and_fulls [of config' config] that by blast
    have "selectSystemOutcomes matches config' riskProfile g
            = selectSystemOutcomes matches config riskProfile g"
      by (simp only: selectSystemOutcomes_ranking eq)
    from generateSystem_reads_selection [OF this gen] show ?thesis .
  qed
  show ?thesis
    using gen conf rank perm classes n other unfolding plan [symmetric] by blast
qed

theorem generateSystem_accepts_any_configuration_witness:
  "length (replicate 13 example_fixture) = 13 \<and> valid_rng (\<lambda>_. 1 / 2)
   \<and> halves (c_distribution mismatched_config) + fulls (c_distribution mismatched_config)
       + singles (c_distribution mismatched_config) = 1
   \<and> fulls (c_distribution mismatched_config) < 0
   \<and> \<not> isl (generateSystem (replicate 13 example_fixture) mismatched_config ''risky'' (\<lambda>_. 1 / 2))
   \<and> \<not> isl (strategicRanking (replicate 13 example_fixture) ''risky'' (\<lambda>_. 1 / 2))
   \<and> length (s_allRows (fst (projr
        (generateSystem (replicate 13 example_fixture) mismatched_config ''risky'' (\<lambda>_. 1 / 2))))) = 4
   \<and> \<not> isl (generateSystem (replicate 13 example_fixture)
               (mismatched_config\<lparr> c_distribution := \<lparr> halves = 2, fulls = - 1, singles = 12 \<rparr> \<rparr>)
               ''risky'' (\<lambda>_. 1 / 2))
   \<and> s_allRows (fst (projr (generateSystem (replicate 13 example_fixture)
               (mismatched_config\<lparr> c_distribution := \<lparr> halves = 2, fulls = - 1, singles = 12 \<rparr> \<rparr>)
               ''risky'' (\<lambda>_. 1 / 2))))
       = s_allRows (fst (projr
           (generateSystem (replicate 13 example_fixture) mismatched_config ''risky'' (\<lambda>_. 1 / 2))))"
proof -
  let ?other = "mismatched_config\<lparr> c_distribution := \<lparr> halves = 2, fulls = - 1, singles = 12 \<rparr> \<rparr>"
  have h1: "length (replicate 13 example_fixture) = 13"
    by simp
  have h2: "valid_rng (\<lambda>_. 1 / 2)"
    by (simp add: valid_rng_const)
  have counts: "halves (c_distribution mismatched_config) + fulls (c_distribution mismatched_config)
       + singles (c_distribution mismatched_config) = 1"
    "fulls (c_distribution mismatched_config) < 0"
    by (simp_all add: mismatched_config_def)
  have n: "2 ^ min 13 (nat (halves (c_distribution mismatched_config)))
             * 3 ^ min (13 - min 13 (nat (halves (c_distribution mismatched_config))))
                       (nat (fulls (c_distribution mismatched_config))) = (4 :: nat)"
    by (simp add: mismatched_config_def)
  have agree: "halves (c_distribution ?other) = halves (c_distribution mismatched_config)
             \<and> fulls (c_distribution ?other) = fulls (c_distribution mismatched_config)"
    by (simp add: mismatched_config_def)
  from generateSystem_accepts_any_configuration [OF h1 h2, of mismatched_config "''risky''"]
  obtain sys g' ranking g1 where
    gen: "generateSystem (replicate 13 example_fixture) mismatched_config ''risky'' (\<lambda>_. 1 / 2)
            = Inr (sys, g')"
    and rank: "strategicRanking (replicate 13 example_fixture) ''risky'' (\<lambda>_. 1 / 2) = Inr (ranking, g1)"
    and rows: "length (s_allRows sys) = 4"
    and other: "\<forall>config'.
                halves (c_distribution config') = halves (c_distribution mismatched_config)
              \<and> fulls (c_distribution config') = fulls (c_distribution mismatched_config) \<longrightarrow>
                generateSystem (replicate 13 example_fixture) config' ''risky'' (\<lambda>_. 1 / 2)
                  = Inr (sys\<lparr> s_configuration := config' \<rparr>, g')"
    unfolding n by blast
  have gen2: "generateSystem (replicate 13 example_fixture) ?other ''risky'' (\<lambda>_. 1 / 2)
                = Inr (sys\<lparr> s_configuration := ?other \<rparr>, g')"
    using other agree by blast
  show ?thesis
    unfolding gen gen2 rank using h1 h2 counts rows by simp
qed

text \<open>
  The claim as stated fails: the configuration \<open>halves = 5\<close>, \<open>fulls = 1\<close>,
  \<open>singles = 0\<close>, whose counts sum to 6, is not rejected; a system of 96 rows is
  returned.
\<close>

theorem generateSystem_accepts_mismatch_counterexample:
  "halves (c_distribution calculator_96) + fulls (c_distribution calculator_96)
     + singles (c_distribution calculator_96) = 6
   \<and> \<not> isl (generateSystem (replicate 13 example_match) calculator_96 ''safe'' (\<lambda>_. 0))
   \<and> length (s_allRows (fst (projr
        (generateSystem (replicate 13 example_match) calculator_96 ''safe'' (\<lambda>_. 0))))) = 96"
proof -
  have h1: "length (replicate 13 example_match) = 13"
    by simp
  have h2: "valid_rng (\<lambda>_. 0)"
    by (simp add: valid_rng_const)
  have n: "2 ^ min 13 (nat (halves (c_distribution calculator_96)))
             * 3 ^ min (13 - min 13 (nat (halves (c_distribution calculator_96))))
                       (nat (fulls (c_distribution calculator_96))) = (96 :: nat)"
    by (simp add: calculator_96_def)
  from generateSystem_structure [OF h1 h2, of calculator_96 "''safe''"]
  obtain sys g' combos where
    "generateSystem (replicate 13 example_match) calculator_96 ''safe'' (\<lambda>_. 0) = Inr (sys, g')"
    "map r_outcomes (s_allRows sys) = combos" "length combos = 96"
    unfolding n by blast
  moreover from this have "length (s_allRows sys) = 96"
    by (metis length_map)
  ultimately show ?thesis
    by (simp add: calculator_96_def)
qed

subsection \<open>Distinct rows\<close>

text \<open>
  Claim C5. For every completed per-match coverage plan, one expansion by
  \<open>generateOutcomeCombinations\<close> returns rows that are pairwise distinct as
  sequences of outcomes.
\<close>

theorem generateOutcomeCombinations_distinct:
  "\<exists>rows. generateOutcomeCombinations (map Some plan) = Inr rows \<and> distinct rows"
proof -
  have "\<forall>slot\<in>set (map Some plan). slot \<noteq> None"
    by simp
  from expandCombinations_total [OF this, of "[[]]"]
  obtain rows where rows: "expandCombinations (map Some plan) [[]] = Inr rows"
    by blast
  have "distinct rows"
    using expandCombinations_distinct [OF rows, of 0] by simp
  then show ?thesis
    using rows by (simp add: generateOutcomeCombinations_def)
qed

theorem generateOutcomeCombinations_distinct_witness:
  "generateOutcomeCombinations (map Some example_plan)
     = Inr [[O1, O1], [O1, OX], [O1, O2], [OX, O1], [OX, OX], [OX, O2]]
   \<and> distinct [[O1, O1], [O1, OX], [O1, O2], [OX, O1], [OX, OX], [OX, O2]]"
  using generateOutcomeCombinations_distinct [of example_plan]
  by (simp add: generateOutcomeCombinations_example)

subsection \<open>Coverage consistency\<close>



end
